theory Spec2Isabelle
  imports Complex_Main
begin

section \<open>JavaScript values used by the game\<close>

text \<open>
  Strings are lists of code units. Numbers that hold positions, speeds and frame times
  are doubles in the source and reals here: the theorems below use only the order of
  the numbers and the sign of a product, which rounding to the nearest double keeps.
  Counters, invader values, the multiplier and millisecond clocks are integers in the
  source (all far below \<open>2 ^ 53\<close>) and are \<open>int\<close> here.
\<close>

text \<open>
  The relational comparison of two strings (\<open>a < b\<close>): by code units, a proper prefix
  being smaller. \<open>a >= b\<close> is \<open>\<not> js_lt a b\<close> and \<open>a <= b\<close> is \<open>\<not> js_lt b a\<close>.
\<close>

fun js_lt :: "string \<Rightarrow> string \<Rightarrow> bool" where
  "js_lt [] [] = False"
| "js_lt [] (y # ys) = True"
| "js_lt (x # xs) [] = False"
| "js_lt (x # xs) (y # ys) =
     (if x = y then js_lt xs ys else (of_char x :: nat) < of_char y)"

definition isDigit :: "char \<Rightarrow> bool" where
  "isDigit c = (48 \<le> (of_char c :: nat) \<and> (of_char c :: nat) \<le> 57)"

definition digitVal :: "char \<Rightarrow> int" where
  "digitVal c = int (of_char c) - 48"

text \<open>White space that \<open>parseInt\<close> skips: TAB, LF, VT, FF, CR, SP and NBSP.\<close>

definition isWhiteSpace :: "char \<Rightarrow> bool" where
  "isWhiteSpace c = ((of_char c :: nat) \<in> {9, 10, 11, 12, 13, 32, 160})"

definition digitsToInt :: "string \<Rightarrow> int" where
  "digitsToInt ds = foldl (\<lambda>a c. 10 * a + digitVal c) 0 ds"

text \<open>
  \<open>parseInt(s, 10)\<close>: skip leading white space, read an optional sign, take the longest
  run of decimal digits and ignore what follows; no digit gives \<open>NaN\<close>, which is
  \<open>None\<close> here.
\<close>

definition parseInt :: "string \<Rightarrow> int option" where
  "parseInt s =
     (let S = dropWhile isWhiteSpace s;
          sign = (case S of c # cs \<Rightarrow> if c = CHR ''-'' then - 1 else 1 | [] \<Rightarrow> (1 :: int));
          S' = (case S of c # cs \<Rightarrow> if c = CHR ''-'' \<or> c = CHR ''+'' then cs else S | [] \<Rightarrow> []);
          Z = takeWhile isDigit S'
      in if Z = [] then None else Some (sign * digitsToInt Z))"

section \<open>Invaders\<close>

record area =
  clientWidth :: int
  clientHeight :: int

record invader =
  inv_value :: int
  inv_x :: real
  inv_y :: real
  inv_speed :: real

text \<open>
  The constructor. \<open>rx\<close> and \<open>rs\<close> are the two results of \<open>Math.random()\<close> it
  consumes, in the order of the calls.
\<close>

definition Invader :: "int \<Rightarrow> area \<Rightarrow> string \<Rightarrow> real \<Rightarrow> real \<Rightarrow> invader" where
  "Invader v gameArea speedSetting rx rs =
     (let availableWidth = max 0 (clientWidth gameArea - 80)
      in \<lparr> inv_value = v,
           inv_x = 10 + rx * real_of_int availableWidth,
           inv_y = - 50,
           inv_speed =
             (if speedSetting = ''easy'' then 30 + rs * 30
              else if speedSetting = ''fast'' then 110 + rs * 70
              else 60 + rs * 60) \<rparr>)"

text \<open>\<open>update(delta)\<close>; \<open>delta || 0\<close> is \<open>delta\<close> for every number but \<open>NaN\<close>.\<close>

definition update :: "invader \<Rightarrow> real \<Rightarrow> invader" where
  "update iv delta = iv\<lparr>inv_y := inv_y iv + inv_speed iv * delta\<rparr>"

definition isOffScreen :: "area \<Rightarrow> invader \<Rightarrow> bool" where
  "isOffScreen gameArea iv = (inv_y iv > real_of_int (clientHeight gameArea))"

section \<open>The game controller\<close>

record settings =
  difficulty :: string
  mode :: string
  speed :: string
  multiplierMode :: string
  fixedMultiplier :: int
  limit :: int

datatype screen = SettingsScreen | GameScreen | GameOverScreen

text \<open>
  The controller's fields. \<open>timerId\<close>, \<open>gameLoopId\<close> and \<open>alertTimer\<close> say whether
  the handle is set; \<open>gameAlert\<close> is the message and kind of the alert while it is
  shown; \<open>screen\<close> is the one of the three panels that is displayed;
  \<open>winCelebration\<close> says whether the win celebration is running.
\<close>

record game =
  settings :: settings
  scoreRight :: int
  scoreWrong :: int
  multiplier :: int
  invaders :: "invader list"
  gameLoopId :: bool
  timerId :: bool
  timeLeft :: int
  spawnInterval :: int
  lastSpawnTime :: int
  alertTimer :: bool
  gameAlert :: "(string \<times> string) option"
  currentAnswer :: string
  lastFrameTime :: "real option"
  gameArea :: area
  screen :: screen
  gameOverTitle :: string
  winCelebration :: bool

text \<open>The state the constructor builds, for a play area of the given size.\<close>

definition newGame :: "area \<Rightarrow> game" where
  "newGame a =
     \<lparr> settings = \<lparr> difficulty = [], mode = [], speed = [], multiplierMode = [],
                    fixedMultiplier = 0, limit = 0 \<rparr>,
       scoreRight = 0, scoreWrong = 0, multiplier = 0, invaders = [],
       gameLoopId = False, timerId = False, timeLeft = 0, spawnInterval = 2500,
       lastSpawnTime = 0, alertTimer = False, gameAlert = None, currentAnswer = [],
       lastFrameTime = None, gameArea = a, screen = SettingsScreen,
       gameOverTitle = [], winCelebration = False \<rparr>"

subsection \<open>Settings\<close>

text \<open>
  The settings form: the value of the checked radio button of each group (\<open>None\<close> when
  none is checked) and the value of each numeric field (\<open>None\<close> when the element is
  absent).
\<close>

record form =
  difficultyEl :: "string option"
  modeEl :: "string option"
  speedEl :: "string option"
  multiplierModeEl :: "string option"
  timeLimitEl :: "string option"
  scoreLimitEl :: "string option"
  fixedMultiplierEl :: "string option"

text \<open>\<open>el?.value || dflt\<close>: the default replaces an absent element and an empty value.\<close>

definition valueOr :: "string option \<Rightarrow> string \<Rightarrow> string" where
  "valueOr el dflt = (case el of None \<Rightarrow> dflt | Some v \<Rightarrow> if v = [] then dflt else v)"

definition checkedOr :: "string option \<Rightarrow> string \<Rightarrow> string" where
  "checkedOr el dflt = (case el of None \<Rightarrow> dflt | Some v \<Rightarrow> v)"

definition getSettings :: "form \<Rightarrow> game \<Rightarrow> game" where
  "getSettings f g =
     (let difficulty' = checkedOr (difficultyEl f) ''single'';
          mode' = checkedOr (modeEl f) ''time'';
          speed' = checkedOr (speedEl f) ''intermediate'';
          multiplierMode' = checkedOr (multiplierModeEl f) ''random'';
          timeLimit0 = parseInt (valueOr (timeLimitEl f) ''60'');
          scoreLimit0 = parseInt (valueOr (scoreLimitEl f) ''20'');
          fixedMultiplier0 = parseInt (valueOr (fixedMultiplierEl f) ''7'');
          timeLimit = (case timeLimit0 of None \<Rightarrow> 60 | Some t \<Rightarrow> if t \<le> 0 then 60 else t);
          scoreLimit = (case scoreLimit0 of None \<Rightarrow> 20 | Some s \<Rightarrow> if s \<le> 0 then 20 else s);
          fixedMultiplier1 = (case fixedMultiplier0 of None \<Rightarrow> 1 | Some m \<Rightarrow> if m < 1 then 1 else m);
          fixedMultiplier2 = (if fixedMultiplier1 > 12 then 12 else fixedMultiplier1)
      in g\<lparr>settings :=
             \<lparr> difficulty = difficulty', mode = mode', speed = speed',
               multiplierMode = multiplierMode', fixedMultiplier = fixedMultiplier2,
               limit = (if mode' = ''time'' then timeLimit else scoreLimit) \<rparr>\<rparr>)"

subsection \<open>Teardown and end of game\<close>

definition cleanup :: "game \<Rightarrow> game" where
  "cleanup g = g\<lparr>timerId := False, gameLoopId := False, alertTimer := False,
                 gameAlert := None, winCelebration := False, invaders := []\<rparr>"

definition showSettings :: "game \<Rightarrow> game" where
  "showSettings g = cleanup (g\<lparr>screen := SettingsScreen\<rparr>)"

definition stopGameForCelebration :: "game \<Rightarrow> game" where
  "stopGameForCelebration g = g\<lparr>timerId := False, gameLoopId := False, alertTimer := False\<rparr>"

definition finalizeEndGame :: "game \<Rightarrow> bool \<Rightarrow> game" where
  "finalizeEndGame g didWin =
     (let g1 = (cleanup g)\<lparr>screen := GameOverScreen\<rparr>;
          lostByWrong = (scoreWrong g1 > scoreRight g1)
      in if lostByWrong then g1\<lparr>gameOverTitle := ''You Lost!''\<rparr>
         else g1\<lparr>gameOverTitle :=
                   (if mode (settings g1) = ''score'' \<and> didWin then ''You Win!''
                    else if didWin then ''You Win!'' else ''Game Over!'')\<rparr>)"

definition startWinCelebration :: "game \<Rightarrow> game" where
  "startWinCelebration g = g\<lparr>winCelebration := True\<rparr>"

definition endGame :: "game \<Rightarrow> bool \<Rightarrow> game" where
  "endGame g didWin =
     (let g1 = stopGameForCelebration g;
          lostByWrong = (scoreWrong g1 > scoreRight g1);
          actuallyWon = (didWin \<and> \<not> lostByWrong);
          g2 = finalizeEndGame g1 actuallyWon
      in if actuallyWon then startWinCelebration g2 else g2)"

subsection \<open>Alerts, multiplier and spawning\<close>

definition showAlert :: "game \<Rightarrow> string \<Rightarrow> string \<Rightarrow> game" where
  "showAlert g message kind = g\<lparr>gameAlert := Some (message, kind), alertTimer := True\<rparr>"

text \<open>The callback of the alert's timer, 800 ms after \<open>showAlert\<close>.\<close>

definition alertTimeout :: "game \<Rightarrow> game" where
  "alertTimeout g = g\<lparr>gameAlert := None, alertTimer := False\<rparr>"

text \<open>\<open>r\<close> is the result of the one call of \<open>Math.random()\<close> made outside fixed mode.\<close>

definition setMultiplier :: "game \<Rightarrow> real \<Rightarrow> game" where
  "setMultiplier g r =
     (if multiplierMode (settings g) = ''fixed''
      then g\<lparr>multiplier := fixedMultiplier (settings g)\<rparr>
      else g\<lparr>multiplier :=
               (if difficulty (settings g) = ''single'' then \<lfloor>r * 9\<rfloor> + 1 else \<lfloor>r * 12\<rfloor> + 1)\<rparr>)"

text \<open>
  \<open>rv\<close> is the random number the value is made from; \<open>rx\<close> and \<open>rs\<close> go to the
  constructor.
\<close>

definition spawnInvader :: "game \<Rightarrow> real \<Rightarrow> real \<Rightarrow> real \<Rightarrow> game" where
  "spawnInvader g rv rx rs =
     (let v = (if difficulty (settings g) = ''single'' then \<lfloor>rv * 9\<rfloor> + 1 else \<lfloor>rv * 90\<rfloor> + 10);
          iv = Invader v (gameArea g) (speed (settings g)) rx rs
      in g\<lparr>invaders := invaders g @ [iv]\<rparr>)"

subsection \<open>The frame callback\<close>

text \<open>
  What one call of \<open>gameLoop\<close> reads from its environment: the two results of
  \<open>performance.now()\<close> (used where the timestamp is missing or zero), \<open>Date.now()\<close>,
  and the random numbers of a spawn.
\<close>

record frameEnv =
  perfNow1 :: real
  perfNow2 :: real
  wallNow :: int
  rValue :: real
  rX :: real
  rSpeed :: real

text \<open>\<open>timestamp || performance.now()\<close>\<close>

definition orNow :: "real option \<Rightarrow> real \<Rightarrow> real" where
  "orNow timestamp pn = (case timestamp of None \<Rightarrow> pn | Some t \<Rightarrow> if t = 0 then pn else t)"

text \<open>
  The loop \<open>for (i = length - 1; i >= 0; i--)\<close>: the first argument is \<open>i + 1\<close>. An
  invader that left the screen is spliced out at its index and counted as wrong.
\<close>

fun sweep :: "nat \<Rightarrow> real \<Rightarrow> game \<Rightarrow> game" where
  "sweep 0 delta g = g"
| "sweep (Suc i) delta g =
     (let iv = update (invaders g ! i) delta;
          g1 = g\<lparr>invaders := (invaders g)[i := iv]\<rparr>
      in if isOffScreen (gameArea g1) iv
         then sweep i delta
                (g1\<lparr>invaders := take i (invaders g1) @ drop (Suc i) (invaders g1),
                    scoreWrong := scoreWrong g1 + 1\<rparr>)
         else sweep i delta g1)"

text \<open>The spawn step of a frame.\<close>

definition spawnStep :: "frameEnv \<Rightarrow> game \<Rightarrow> game" where
  "spawnStep env g =
     (if wallNow env - lastSpawnTime g \<ge> spawnInterval g
      then (let g1 = spawnInvader g (rValue env) (rX env) (rSpeed env);
                g2 = g1\<lparr>lastSpawnTime := wallNow env\<rparr>
            in if spawnInterval g2 > 600 then g2\<lparr>spawnInterval := spawnInterval g2 - 50\<rparr> else g2)
      else g)"

definition frameDelta :: "real option \<Rightarrow> frameEnv \<Rightarrow> game \<Rightarrow> real" where
  "frameDelta timestamp env g =
     (let lft = (case lastFrameTime g of None \<Rightarrow> orNow timestamp (perfNow1 env)
                 | Some l \<Rightarrow> if l = 0 then orNow timestamp (perfNow1 env) else l);
          now = orNow timestamp (perfNow2 env);
          deltaMs = now - lft
      in min 0.1 (deltaMs / 1000))"

definition gameLoop :: "real option \<Rightarrow> frameEnv \<Rightarrow> game \<Rightarrow> game" where
  "gameLoop timestamp env g =
     (let delta = frameDelta timestamp env g;
          g1 = spawnStep env g;
          g2 = sweep (length (invaders g1)) delta g1
      in g2\<lparr>lastFrameTime := Some (orNow timestamp (perfNow2 env)), gameLoopId := True\<rparr>)"

subsection \<open>Input and answers\<close>

text \<open>
  The scan of \<open>checkAnswer\<close> for the index of the first invader whose product with the
  multiplier is the answer; \<open>- 1\<close> when there is none. The third argument is the index
  of the head of the list.
\<close>

fun findCorrectIndex :: "int \<Rightarrow> int option \<Rightarrow> invader list \<Rightarrow> nat \<Rightarrow> int" where
  "findCorrectIndex m answer [] i = - 1"
| "findCorrectIndex m answer (iv # rest) i =
     (if Some (inv_value iv * m) = answer then int i
      else findCorrectIndex m answer rest (Suc i))"

definition checkAnswer :: "game \<Rightarrow> game" where
  "checkAnswer g =
     (if currentAnswer g = [] then g
      else
        (let answer = parseInt (currentAnswer g);
             correctIndex = findCorrectIndex (multiplier g) answer (invaders g) 0;
             g3 =
               (if correctIndex \<noteq> - 1
                then
                  (let k = nat correctIndex;
                       g1 = g\<lparr>invaders := take k (invaders g) @ drop (Suc k) (invaders g),
                              scoreRight := scoreRight g + 1\<rparr>;
                       g2 = showAlert g1 ''Correct!'' ''correct''
                   in if mode (settings g2) = ''score'' \<and> scoreRight g2 \<ge> limit (settings g2)
                      then endGame g2 True else g2)
                else showAlert (g\<lparr>scoreWrong := scoreWrong g + 1\<rparr>) ''Wrong!'' ''wrong'')
         in g3\<lparr>currentAnswer := []\<rparr>))"

text \<open>The test \<open>key >= '0' && key <= '9'\<close>, on strings.\<close>

definition isDigitKey :: "string \<Rightarrow> bool" where
  "isDigitKey key = (\<not> js_lt key ''0'' \<and> \<not> js_lt ''9'' key)"

definition handleKeypadInput :: "game \<Rightarrow> string \<Rightarrow> game" where
  "handleKeypadInput g key =
     (if isDigitKey key
      then (if length (currentAnswer g) < 5 then g\<lparr>currentAnswer := currentAnswer g @ key\<rparr> else g)
      else if key = ''del'' then g\<lparr>currentAnswer := butlast (currentAnswer g)\<rparr>
      else if key = ''submit'' then checkAnswer g
      else g)"

text \<open>The click handler of the keypad: a button without a key does nothing.\<close>

definition keypadClick :: "game \<Rightarrow> string \<Rightarrow> game" where
  "keypadClick g key = (if key \<noteq> [] then handleKeypadInput g key else g)"

text \<open>The \<open>keydown\<close> handler, live while the game screen is displayed.\<close>

definition keydown :: "game \<Rightarrow> string \<Rightarrow> game" where
  "keydown g key =
     (if screen g = GameScreen
      then (if isDigitKey key then handleKeypadInput g key
            else if key = ''Enter'' then handleKeypadInput g ''submit''
            else if key = ''Backspace'' then handleKeypadInput g ''del''
            else g)
      else g)"

subsection \<open>Starting a session, the countdown, and the events of a session\<close>

text \<open>
  \<open>start\<close> reads the form, the random number of \<open>setMultiplier\<close>, \<open>Date.now()\<close>, and
  what its first call of \<open>gameLoop\<close> (without timestamp) reads. \<open>startSetup\<close> is the
  body of \<open>start\<close> up to that call.
\<close>

definition startSetup :: "form \<Rightarrow> real \<Rightarrow> int \<Rightarrow> game \<Rightarrow> game" where
  "startSetup f rm dateNow g =
     (let g1 = getSettings f g;
          g2 = cleanup (g1\<lparr>screen := GameScreen\<rparr>);
          g3 = g2\<lparr>scoreRight := 0, scoreWrong := 0, invaders := [], spawnInterval := 2500,
                  currentAnswer := []\<rparr>;
          g4 = setMultiplier g3 rm;
          g5 = (if mode (settings g4) = ''time''
                then g4\<lparr>timeLeft := limit (settings g4), timerId := True\<rparr> else g4)
      in g5\<lparr>lastSpawnTime := dateNow - spawnInterval g5 - 1, lastFrameTime := None\<rparr>)"

definition start :: "form \<Rightarrow> real \<Rightarrow> int \<Rightarrow> frameEnv \<Rightarrow> game \<Rightarrow> game" where
  "start f rm dateNow env g = gameLoop None env (startSetup f rm dateNow g)"

text \<open>The callback of the one-second interval that \<open>start\<close> sets in timed mode.\<close>

definition timerTick :: "game \<Rightarrow> game" where
  "timerTick g =
     (let g1 = g\<lparr>timeLeft := timeLeft g - 1\<rparr>
      in if timeLeft g1 \<le> 0 then endGame g1 True else g1)"

text \<open>
  Everything that can happen to the controller after its construction. A frame, a tick
  or an alert timeout runs only while its handle is set: the teardown cancels them.
\<close>

datatype event =
    Start form real int frameEnv
  | Restart
  | Frame real frameEnv
  | Tick
  | AlertTimeout
  | KeypadClick string
  | Keydown string

fun step :: "game \<Rightarrow> event \<Rightarrow> game" where
  "step g (Start f rm dateNow env) = start f rm dateNow env g"
| "step g Restart = showSettings g"
| "step g (Frame t env) = (if gameLoopId g then gameLoop (Some t) env g else g)"
| "step g Tick = (if timerId g then timerTick g else g)"
| "step g AlertTimeout = (if alertTimer g then alertTimeout g else g)"
| "step g (KeypadClick key) = keypadClick g key"
| "step g (Keydown key) = keydown g key"

definition run :: "game \<Rightarrow> event list \<Rightarrow> game" where
  "run g evs = foldl step g evs"

fun isStart :: "event \<Rightarrow> bool" where
  "isStart (Start f rm dateNow env) = True"
| "isStart e = False"

section \<open>Example states\<close>

definition exampleArea :: area where
  "exampleArea = \<lparr> clientWidth = 400, clientHeight = 600 \<rparr>"

definition exampleInvader :: "int \<Rightarrow> real \<Rightarrow> invader" where
  "exampleInvader v y = \<lparr> inv_value = v, inv_x = 100, inv_y = y, inv_speed = 60 \<rparr>"

text \<open>
  A running session with multiplier 5 and three invaders, of values 3, 4 and 3; the
  parameters are the mode, the limit and the pending input.
\<close>

definition exampleGame :: "string \<Rightarrow> int \<Rightarrow> string \<Rightarrow> game" where
  "exampleGame md lm ans =
     (newGame exampleArea)
       \<lparr> settings := \<lparr> difficulty = ''single'', mode = md, speed = ''intermediate'',
                       multiplierMode = ''fixed'', fixedMultiplier = 5, limit = lm \<rparr>,
         multiplier := 5,
         invaders := [exampleInvader 3 10, exampleInvader 4 20, exampleInvader 3 30],
         gameLoopId := True, currentAnswer := ans, screen := GameScreen \<rparr>"

definition exampleForm :: "string \<Rightarrow> string \<Rightarrow> string \<Rightarrow> string \<Rightarrow> string \<Rightarrow> form" where
  "exampleForm md mm tlim slim fm =
     \<lparr> difficultyEl = Some ''single'', modeEl = Some md, speedEl = Some ''intermediate'',
       multiplierModeEl = Some mm, timeLimitEl = Some tlim, scoreLimitEl = Some slim,
       fixedMultiplierEl = Some fm \<rparr>"

definition exampleEnv :: "real \<Rightarrow> int \<Rightarrow> real \<Rightarrow> frameEnv" where
  "exampleEnv pn wn rv =
     \<lparr> perfNow1 = pn, perfNow2 = pn, wallNow = wn, rValue = rv, rX = 1 / 2, rSpeed = 1 / 2 \<rparr>"

text \<open>
  The start of a timed session with a random multiplier: the multiplier drawn is 5 and
  the invader spawned by the first frame has value 3.
\<close>

definition exampleStart :: event where
  "exampleStart =
     Start (exampleForm ''time'' ''random'' ''60'' ''20'' ''7'') (1 / 2) 1000
       (exampleEnv 5000 1000 (1 / 4))"

text \<open>
  A session in score mode with target 1 and fixed multiplier 5: the first frame spawns
  an invader of value 3, a later frame one of value 4, and the player has typed 15.
\<close>

definition exampleScoreStart :: event where
  "exampleScoreStart =
     Start (exampleForm ''score'' ''fixed'' ''60'' ''1'' ''5'') 0 1000
       (exampleEnv 5000 1000 (1 / 4))"

definition exampleScoreSession :: game where
  "exampleScoreSession =
     run (newGame exampleArea)
       [exampleScoreStart, Frame 7516 (exampleEnv 7516 3500 (7 / 20)),
        KeypadClick ''1'', KeypadClick ''5'']"

text \<open>The same session after two wrong answers (9, twice) before the 15 is typed.\<close>

definition exampleLosingSession :: game where
  "exampleLosingSession =
     run (newGame exampleArea)
       [exampleScoreStart, Frame 7516 (exampleEnv 7516 3500 (7 / 20)),
        KeypadClick ''9'', KeypadClick ''submit'', KeypadClick ''9'', KeypadClick ''submit'',
        KeypadClick ''1'', KeypadClick ''5'']"

text \<open>
  A timed session of one second with a random multiplier, right after its start; and
  the same session after one wrong answer (9).
\<close>

definition exampleTimedStart :: event where
  "exampleTimedStart =
     Start (exampleForm ''time'' ''random'' ''1'' ''20'' ''7'') (1 / 2) 1000
       (exampleEnv 5000 1000 (1 / 4))"

definition exampleTimedSession :: game where
  "exampleTimedSession = run (newGame exampleArea) [exampleTimedStart]"

definition exampleTimedLosingSession :: game where
  "exampleTimedLosingSession =
     run (newGame exampleArea) [exampleTimedStart, KeypadClick ''9'', KeypadClick ''submit'']"

lemmas eval_defs = run_def exampleStart_def exampleForm_def exampleEnv_def exampleArea_def newGame_def
  start_def startSetup_def getSettings_def checkedOr_def valueOr_def setMultiplier_def cleanup_def
  gameLoop_def frameDelta_def orNow_def spawnStep_def spawnInvader_def Invader_def update_def
  isOffScreen_def Let_def parseInt_def isWhiteSpace_def isDigit_def digitsToInt_def digitVal_def
  keypadClick_def handleKeypadInput_def isDigitKey_def checkAnswer_def showAlert_def
  exampleScoreSession_def exampleLosingSession_def exampleScoreStart_def
  exampleTimedStart_def exampleTimedSession_def exampleTimedLosingSession_def timerTick_def
  endGame_def finalizeEndGame_def stopGameForCelebration_def startWinCelebration_def

section \<open>Field lemmas\<close>

lemma endGame_fields:
  "scoreRight (endGame g w) = scoreRight g"
  "scoreWrong (endGame g w) = scoreWrong g"
  "multiplier (endGame g w) = multiplier g"
  "settings (endGame g w) = settings g"
  "spawnInterval (endGame g w) = spawnInterval g"
  "currentAnswer (endGame g w) = currentAnswer g"
  "invaders (endGame g w) = []"
  "screen (endGame g w) = GameOverScreen"
  "gameAlert (endGame g w) = None"
  by (simp_all add: endGame_def finalizeEndGame_def cleanup_def stopGameForCelebration_def
        startWinCelebration_def Let_def)

lemma endGame_True_title:
  "gameOverTitle (endGame g True) =
     (if scoreWrong g > scoreRight g then ''You Lost!'' else ''You Win!'')"
  by (simp add: endGame_def finalizeEndGame_def cleanup_def stopGameForCelebration_def
        startWinCelebration_def Let_def)

lemma endGame_True_celebration:
  "winCelebration (endGame g True) = (scoreWrong g \<le> scoreRight g)"
  by (auto simp add: endGame_def finalizeEndGame_def cleanup_def stopGameForCelebration_def
        startWinCelebration_def Let_def)

lemma spawnInvader_fields:
  "scoreRight (spawnInvader g rv rx rs) = scoreRight g"
  "scoreWrong (spawnInvader g rv rx rs) = scoreWrong g"
  "multiplier (spawnInvader g rv rx rs) = multiplier g"
  "settings (spawnInvader g rv rx rs) = settings g"
  "currentAnswer (spawnInvader g rv rx rs) = currentAnswer g"
  "screen (spawnInvader g rv rx rs) = screen g"
  "gameArea (spawnInvader g rv rx rs) = gameArea g"
  "spawnInterval (spawnInvader g rv rx rs) = spawnInterval g"
  "lastSpawnTime (spawnInvader g rv rx rs) = lastSpawnTime g"
  by (simp_all add: spawnInvader_def Let_def)

lemma spawnStep_fields:
  "scoreRight (spawnStep env g) = scoreRight g"
  "scoreWrong (spawnStep env g) = scoreWrong g"
  "multiplier (spawnStep env g) = multiplier g"
  "settings (spawnStep env g) = settings g"
  "currentAnswer (spawnStep env g) = currentAnswer g"
  "screen (spawnStep env g) = screen g"
  "gameArea (spawnStep env g) = gameArea g"
  by (simp_all add: spawnStep_def Let_def spawnInvader_fields)

lemma spawnStep_spawnInterval:
  "spawnInterval (spawnStep env g) =
     (if wallNow env - lastSpawnTime g \<ge> spawnInterval g \<and> spawnInterval g > 600
      then spawnInterval g - 50 else spawnInterval g)"
  by (simp add: spawnStep_def Let_def spawnInvader_fields)

lemma spawnStep_lastSpawnTime:
  "lastSpawnTime (spawnStep env g) =
     (if wallNow env - lastSpawnTime g \<ge> spawnInterval g then wallNow env else lastSpawnTime g)"
  by (simp add: spawnStep_def Let_def spawnInvader_fields)

lemma spawnStep_invaders:
  "invaders (spawnStep env g) =
     (if wallNow env - lastSpawnTime g \<ge> spawnInterval g
      then invaders (spawnInvader g (rValue env) (rX env) (rSpeed env)) else invaders g)"
  by (simp add: spawnStep_def Let_def)

section \<open>The sweep of a frame is a filter\<close>

lemma sweep_eq:
  "n \<le> length (invaders g) \<Longrightarrow>
   sweep n d g =
     g\<lparr>invaders :=
         filter (\<lambda>iv. \<not> isOffScreen (gameArea g) iv) (map (\<lambda>iv. update iv d) (take n (invaders g)))
         @ drop n (invaders g),
       scoreWrong :=
         scoreWrong g
         + int (length (filter (isOffScreen (gameArea g)) (map (\<lambda>iv. update iv d) (take n (invaders g)))))\<rparr>"
proof (induction n arbitrary: g)
  case 0
  then show ?case by simp
next
  case (Suc n)
  let ?xs = "invaders g"
  let ?iv = "update (?xs ! n) d"
  from Suc.prems have n: "n < length ?xs" by simp
  have tk: "take (Suc n) ?xs = take n ?xs @ [?xs ! n]"
    using n by (simp add: take_Suc_conv_app_nth)
  show ?case
  proof (cases "isOffScreen (gameArea g) ?iv")
    case True
    let ?g' = "g\<lparr>invaders := take n ?xs @ drop (Suc n) ?xs, scoreWrong := scoreWrong g + 1\<rparr>"
    have len: "n \<le> length (invaders ?g')" using n by simp
    have "sweep (Suc n) d g = sweep n d ?g'"
      using True n by (simp add: Let_def)
    also have "\<dots> = ?g'\<lparr>invaders :=
         filter (\<lambda>iv. \<not> isOffScreen (gameArea ?g') iv) (map (\<lambda>iv. update iv d) (take n (invaders ?g')))
         @ drop n (invaders ?g'),
       scoreWrong :=
         scoreWrong ?g'
         + int (length (filter (isOffScreen (gameArea ?g')) (map (\<lambda>iv. update iv d) (take n (invaders ?g')))))\<rparr>"
      by (rule Suc.IH [OF len])
    finally show ?thesis
      using True n by (simp add: tk min_absorb2)
  next
    case False
    let ?g' = "g\<lparr>invaders := ?xs[n := ?iv]\<rparr>"
    have len: "n \<le> length (invaders ?g')" using n by simp
    have "sweep (Suc n) d g = sweep n d ?g'"
      using False by (simp add: Let_def)
    also have "\<dots> = ?g'\<lparr>invaders :=
         filter (\<lambda>iv. \<not> isOffScreen (gameArea ?g') iv) (map (\<lambda>iv. update iv d) (take n (invaders ?g')))
         @ drop n (invaders ?g'),
       scoreWrong :=
         scoreWrong ?g'
         + int (length (filter (isOffScreen (gameArea ?g')) (map (\<lambda>iv. update iv d) (take n (invaders ?g')))))\<rparr>"
      by (rule Suc.IH [OF len])
    finally show ?thesis
      using False n by (simp add: tk Cons_nth_drop_Suc [symmetric] upd_conv_take_nth_drop)
  qed
qed

lemma sweep_all:
  "sweep (length (invaders g)) d g =
     g\<lparr>invaders := filter (\<lambda>iv. \<not> isOffScreen (gameArea g) iv) (map (\<lambda>iv. update iv d) (invaders g)),
       scoreWrong := scoreWrong g
         + int (length (filter (isOffScreen (gameArea g)) (map (\<lambda>iv. update iv d) (invaders g))))\<rparr>"
  using sweep_eq [of "length (invaders g)" g d] by simp

lemma gameLoop_fields:
  "scoreRight (gameLoop ts env g) = scoreRight g"
  "multiplier (gameLoop ts env g) = multiplier g"
  "settings (gameLoop ts env g) = settings g"
  "currentAnswer (gameLoop ts env g) = currentAnswer g"
  "screen (gameLoop ts env g) = screen g"
  "gameArea (gameLoop ts env g) = gameArea g"
  "spawnInterval (gameLoop ts env g) = spawnInterval (spawnStep env g)"
  "lastSpawnTime (gameLoop ts env g) = lastSpawnTime (spawnStep env g)"
  by (simp_all add: gameLoop_def Let_def sweep_all spawnStep_fields)

section \<open>Answers\<close>

lemma parseInt_15: "parseInt ''15'' = Some 15"
  by (simp add: parseInt_def isWhiteSpace_def isDigit_def digitsToInt_def digitVal_def Let_def)

lemma parseInt_99: "parseInt ''99'' = Some 99"
  by (simp add: parseInt_def isWhiteSpace_def isDigit_def digitsToInt_def digitVal_def Let_def)

lemma findCorrectIndex_none:
  "\<forall>iv\<in>set xs. Some (inv_value iv * m) \<noteq> ans \<Longrightarrow> findCorrectIndex m ans xs i = - 1"
  by (induction xs arbitrary: i) simp_all

lemma findCorrectIndex_first:
  "\<forall>p\<in>set pre. inv_value p * m \<noteq> a \<Longrightarrow> inv_value iv * m = a \<Longrightarrow>
   findCorrectIndex m (Some a) (pre @ iv # post) i = int (i + length pre)"
  by (induction pre arbitrary: i) simp_all

lemma checkAnswer_empty: "currentAnswer g = [] \<Longrightarrow> checkAnswer g = g"
  by (simp add: checkAnswer_def)

lemma checkAnswer_wrong:
  assumes "currentAnswer g \<noteq> []"
    and "\<forall>iv\<in>set (invaders g). Some (inv_value iv * multiplier g) \<noteq> parseInt (currentAnswer g)"
  shows "checkAnswer g =
           (showAlert (g\<lparr>scoreWrong := scoreWrong g + 1\<rparr>) ''Wrong!'' ''wrong'')\<lparr>currentAnswer := []\<rparr>"
  using assms by (simp add: checkAnswer_def Let_def findCorrectIndex_none)

lemma checkAnswer_right:
  assumes "currentAnswer g \<noteq> []" and "parseInt (currentAnswer g) = Some a"
    and "invaders g = pre @ iv # post"
    and "\<forall>p\<in>set pre. inv_value p * multiplier g \<noteq> a" and "inv_value iv * multiplier g = a"
  shows "checkAnswer g =
    (let g2 = showAlert (g\<lparr>invaders := pre @ post, scoreRight := scoreRight g + 1\<rparr>) ''Correct!'' ''correct''
     in (if mode (settings g) = ''score'' \<and> scoreRight g + 1 \<ge> limit (settings g)
         then endGame g2 True else g2)\<lparr>currentAnswer := []\<rparr>)"
  using assms by (simp add: checkAnswer_def Let_def findCorrectIndex_first showAlert_def)

lemma exampleScoreSession_state:
  "map inv_value (invaders exampleScoreSession) = [3, 4]"
  "multiplier exampleScoreSession = 5"
  "currentAnswer exampleScoreSession = ''15''"
  "screen exampleScoreSession = GameScreen"
  "scoreRight exampleScoreSession = 0"
  "scoreWrong exampleScoreSession = 0"
  "mode (settings exampleScoreSession) = ''score''"
  "limit (settings exampleScoreSession) = 1"
  by (simp_all add: eval_defs)

lemma exampleScoreSession_submit:
  "invaders (checkAnswer exampleScoreSession) = []"
  "scoreRight (checkAnswer exampleScoreSession) = 1"
  "scoreWrong (checkAnswer exampleScoreSession) = 0"
  "screen (checkAnswer exampleScoreSession) = GameOverScreen"
  by (simp_all add: eval_defs)

text \<open>
  C1, as stated, fails when the correct answer ends the session. In the example session
  (score mode, target 1, multiplier 5, invaders 3 and 4 active) the answer 15 matches
  the invader 3; the claim leaves the invader 4 in the list, but the end of the game
  tears the list down and no invader is left.
\<close>

theorem checkAnswer_ends_session_counterexample:
  "map inv_value (invaders exampleScoreSession) = [3, 4]
   \<and> multiplier exampleScoreSession = 5
   \<and> parseInt (currentAnswer exampleScoreSession) = Some 15
   \<and> scoreRight (checkAnswer exampleScoreSession) = 1
   \<and> invaders (checkAnswer exampleScoreSession) = []
   \<and> map inv_value (invaders (checkAnswer exampleScoreSession)) \<noteq> [4]"
  by (simp add: exampleScoreSession_state exampleScoreSession_submit parseInt_15)

text \<open>
  C1, amended: for a non-empty pending input that parses as the integer \<open>a\<close>. If some
  active invader has value times multiplier equal to \<open>a\<close>, the first such invader in
  list order is removed, the correct counter grows by one and the wrong counter is
  unchanged; every other invader stays, in order, unless the answer ends the session
  (score mode, the correct count reaching the limit), where the teardown empties the
  list. If no active invader matches, the wrong counter grows by one, and the list and
  the correct counter are unchanged.
\<close>

theorem checkAnswer_match:
  assumes "currentAnswer g \<noteq> []" and "parseInt (currentAnswer g) = Some a"
  shows "((\<exists>iv\<in>set (invaders g). inv_value iv * multiplier g = a) \<longrightarrow>
            (\<exists>pre iv post.
               invaders g = pre @ iv # post
             \<and> inv_value iv * multiplier g = a
             \<and> (\<forall>p\<in>set pre. inv_value p * multiplier g \<noteq> a)
             \<and> invaders (checkAnswer g) =
                 (if mode (settings g) = ''score'' \<and> scoreRight g + 1 \<ge> limit (settings g)
                  then [] else pre @ post)
             \<and> scoreRight (checkAnswer g) = scoreRight g + 1
             \<and> scoreWrong (checkAnswer g) = scoreWrong g))
       \<and> ((\<forall>iv\<in>set (invaders g). inv_value iv * multiplier g \<noteq> a) \<longrightarrow>
            invaders (checkAnswer g) = invaders g
          \<and> scoreWrong (checkAnswer g) = scoreWrong g + 1
          \<and> scoreRight (checkAnswer g) = scoreRight g)"
proof (intro conjI impI)
  assume "\<exists>iv\<in>set (invaders g). inv_value iv * multiplier g = a"
  then obtain pre iv post where sp: "invaders g = pre @ iv # post"
    and hit: "inv_value iv * multiplier g = a"
    and miss: "\<forall>p\<in>set pre. inv_value p * multiplier g \<noteq> a"
    using split_list_first_prop [of "invaders g" "\<lambda>iv. inv_value iv * multiplier g = a"] by blast
  note eq = checkAnswer_right [OF assms sp miss hit]
  have "invaders (checkAnswer g) =
          (if mode (settings g) = ''score'' \<and> scoreRight g + 1 \<ge> limit (settings g)
           then [] else pre @ post)"
    by (simp add: eq Let_def endGame_fields showAlert_def)
  moreover have "scoreRight (checkAnswer g) = scoreRight g + 1"
    by (simp add: eq Let_def endGame_fields showAlert_def)
  moreover have "scoreWrong (checkAnswer g) = scoreWrong g"
    by (simp add: eq Let_def endGame_fields showAlert_def)
  ultimately show "\<exists>pre iv post.
               invaders g = pre @ iv # post
             \<and> inv_value iv * multiplier g = a
             \<and> (\<forall>p\<in>set pre. inv_value p * multiplier g \<noteq> a)
             \<and> invaders (checkAnswer g) =
                 (if mode (settings g) = ''score'' \<and> scoreRight g + 1 \<ge> limit (settings g)
                  then [] else pre @ post)
             \<and> scoreRight (checkAnswer g) = scoreRight g + 1
             \<and> scoreWrong (checkAnswer g) = scoreWrong g"
    using sp hit miss by blast
next
  assume none: "\<forall>iv\<in>set (invaders g). inv_value iv * multiplier g \<noteq> a"
  then have "\<forall>iv\<in>set (invaders g). Some (inv_value iv * multiplier g) \<noteq> parseInt (currentAnswer g)"
    using assms(2) by simp
  note eq = checkAnswer_wrong [OF assms(1) this]
  show "invaders (checkAnswer g) = invaders g"
    and "scoreWrong (checkAnswer g) = scoreWrong g + 1"
    and "scoreRight (checkAnswer g) = scoreRight g"
    by (simp_all add: eq showAlert_def)
qed

theorem checkAnswer_match_witness:
  "currentAnswer (exampleGame ''time'' 60 ''15'') \<noteq> []
   \<and> parseInt (currentAnswer (exampleGame ''time'' 60 ''15'')) = Some 15
   \<and> (\<exists>iv\<in>set (invaders (exampleGame ''time'' 60 ''15'')).
        inv_value iv * multiplier (exampleGame ''time'' 60 ''15'') = 15)
   \<and> (\<exists>pre iv post.
         invaders (exampleGame ''time'' 60 ''15'') = pre @ iv # post
       \<and> inv_value iv * multiplier (exampleGame ''time'' 60 ''15'') = 15
       \<and> (\<forall>p\<in>set pre. inv_value p * multiplier (exampleGame ''time'' 60 ''15'') \<noteq> 15)
       \<and> invaders (checkAnswer (exampleGame ''time'' 60 ''15'')) = pre @ post
       \<and> scoreRight (checkAnswer (exampleGame ''time'' 60 ''15'')) = 1
       \<and> scoreWrong (checkAnswer (exampleGame ''time'' 60 ''15'')) = 0)
   \<and> invaders (checkAnswer (exampleGame ''time'' 60 ''15'')) =
       [exampleInvader 4 20, exampleInvader 3 30]
   \<and> currentAnswer (exampleGame ''time'' 60 ''99'') \<noteq> []
   \<and> parseInt (currentAnswer (exampleGame ''time'' 60 ''99'')) = Some 99
   \<and> map (\<lambda>iv. inv_value iv * multiplier (exampleGame ''time'' 60 ''99''))
         (invaders (exampleGame ''time'' 60 ''99'')) = [15, 20, 15]
   \<and> invaders (checkAnswer (exampleGame ''time'' 60 ''99'')) =
       [exampleInvader 3 10, exampleInvader 4 20, exampleInvader 3 30]
   \<and> scoreWrong (checkAnswer (exampleGame ''time'' 60 ''99'')) = 1
   \<and> scoreRight (checkAnswer (exampleGame ''time'' 60 ''99'')) = 0"
proof -
  let ?g = "exampleGame ''time'' 60 ''15''"
  let ?h = "exampleGame ''time'' 60 ''99''"
  have h1: "currentAnswer ?g \<noteq> []" by (simp add: exampleGame_def)
  have h2: "parseInt (currentAnswer ?g) = Some 15" by (simp add: exampleGame_def parseInt_15)
  have h3: "\<exists>iv\<in>set (invaders ?g). inv_value iv * multiplier ?g = 15"
    by (simp add: exampleGame_def exampleInvader_def)
  have st: "mode (settings ?g) = ''time''" "scoreRight ?g = 0" "scoreWrong ?g = 0"
    by (simp_all add: exampleGame_def newGame_def)
  have c: "invaders (checkAnswer ?g) = [exampleInvader 4 20, exampleInvader 3 30]"
    by (simp add: exampleGame_def newGame_def checkAnswer_def parseInt_15 Let_def exampleInvader_def
        showAlert_def)
  from checkAnswer_match [OF h1 h2] h3 st
  have a: "\<exists>pre iv post.
         invaders ?g = pre @ iv # post
       \<and> inv_value iv * multiplier ?g = 15
       \<and> (\<forall>p\<in>set pre. inv_value p * multiplier ?g \<noteq> 15)
       \<and> invaders (checkAnswer ?g) = pre @ post
       \<and> scoreRight (checkAnswer ?g) = 1
       \<and> scoreWrong (checkAnswer ?g) = 0"
    by simp
  have k1: "currentAnswer ?h \<noteq> []" by (simp add: exampleGame_def)
  have k2: "parseInt (currentAnswer ?h) = Some 99" by (simp add: exampleGame_def parseInt_99)
  have k3: "\<forall>iv\<in>set (invaders ?h). inv_value iv * multiplier ?h \<noteq> 99"
    by (simp add: exampleGame_def exampleInvader_def)
  have st': "scoreRight ?h = 0" "scoreWrong ?h = 0"
    "invaders ?h = [exampleInvader 3 10, exampleInvader 4 20, exampleInvader 3 30]"
    by (simp_all add: exampleGame_def newGame_def)
  from checkAnswer_match [OF k1 k2] k3 st'
  have b: "invaders (checkAnswer ?h) = [exampleInvader 3 10, exampleInvader 4 20, exampleInvader 3 30]
       \<and> scoreWrong (checkAnswer ?h) = 1 \<and> scoreRight (checkAnswer ?h) = 0"
    by simp
  have k4: "map (\<lambda>iv. inv_value iv * multiplier ?h) (invaders ?h) = [15, 20, 15]"
    by (simp add: exampleGame_def exampleInvader_def)
  from h1 h2 h3 a c k1 k2 k4 b show ?thesis by blast
qed

text \<open>
  C2: when the end of the game is called with the win flag set, the title records a
  loss exactly when the wrong count exceeds the correct count at that moment, and a win
  otherwise; the win celebration runs afterwards exactly in the second case. The
  counters are the ones the call found.
\<close>

theorem endGame_resolution:
  "(gameOverTitle (endGame g True) = ''You Lost!'') = (scoreWrong g > scoreRight g)
   \<and> (gameOverTitle (endGame g True) = ''You Win!'') = (\<not> scoreWrong g > scoreRight g)
   \<and> winCelebration (endGame g True) = (\<not> scoreWrong g > scoreRight g)
   \<and> screen (endGame g True) = GameOverScreen
   \<and> scoreRight (endGame g True) = scoreRight g
   \<and> scoreWrong (endGame g True) = scoreWrong g"
  by (simp add: endGame_fields endGame_True_title endGame_True_celebration not_less)

text \<open>
  C3: a frame first runs its spawn step, then moves every active invader by the
  frame's delta. The invaders whose new vertical position exceeds the height of the
  play area are exactly the ones removed, the wrong counter grows by their number (one
  for each), the others stay in the list in order, and the correct counter is
  unchanged.
\<close>

theorem gameLoop_missed:
  "invaders (gameLoop ts env g) =
     filter (\<lambda>iv. \<not> isOffScreen (gameArea g) iv)
       (map (\<lambda>iv. update iv (frameDelta ts env g)) (invaders (spawnStep env g)))
   \<and> scoreWrong (gameLoop ts env g) =
     scoreWrong g + int (length (filter (isOffScreen (gameArea g))
       (map (\<lambda>iv. update iv (frameDelta ts env g)) (invaders (spawnStep env g)))))
   \<and> scoreRight (gameLoop ts env g) = scoreRight g
   \<and> isOffScreen (gameArea g) iv = (inv_y iv > real_of_int (clientHeight (gameArea g)))"
  by (simp add: gameLoop_def Let_def sweep_all spawnStep_fields isOffScreen_def)

section \<open>Movement\<close>

lemma Invader_speed_pos: "0 \<le> rs \<Longrightarrow> 0 < inv_speed (Invader v a sp rx rs)"
  by (simp add: Invader_def Let_def add_pos_nonneg)

lemma foldl_update_fields:
  "inv_x (foldl update iv ds) = inv_x iv"
  "inv_value (foldl update iv ds) = inv_value iv"
  "inv_speed (foldl update iv ds) = inv_speed iv"
  by (induction ds arbitrary: iv) (simp_all add: update_def)

text \<open>The delta of a frame is not negative when the frame's timestamp is not before the last one.\<close>

lemma frameDelta_nonneg:
  assumes "lastFrameTime g = Some l" and "l \<noteq> 0" and "t \<noteq> 0" and "l \<le> t"
  shows "0 \<le> frameDelta (Some t) env g"
  using assms by (simp add: frameDelta_def orNow_def Let_def)

text \<open>
  C8: let an invader be built by the constructor (its random number for the speed being
  non-negative, as \<open>Math.random()\<close> gives) and then moved by any earlier updates. One
  more update by a non-negative delta leaves the horizontal position at the value set
  by the constructor, leaves the value and the speed as they were, the speed being
  positive, and adds speed times delta to the vertical position, which does not
  decrease.
\<close>

theorem update_frame:
  assumes "0 \<le> rs" and "0 \<le> d" and "iv = foldl update (Invader v a sp rx rs) ds"
  shows "inv_x (update iv d) = inv_x (Invader v a sp rx rs)
       \<and> inv_value (update iv d) = v
       \<and> inv_speed (update iv d) = inv_speed (Invader v a sp rx rs)
       \<and> 0 < inv_speed iv
       \<and> inv_y (update iv d) = inv_y iv + inv_speed iv * d
       \<and> inv_y iv \<le> inv_y (update iv d)"
proof -
  have sp: "inv_speed iv = inv_speed (Invader v a sp rx rs)"
    using assms(3) by (simp add: foldl_update_fields)
  have pos: "0 < inv_speed iv"
    using sp Invader_speed_pos [OF assms(1)] by simp
  have "0 \<le> inv_speed iv * d"
    using pos assms(2) by simp
  then have "inv_y iv \<le> inv_y (update iv d)"
    by (simp add: update_def)
  moreover have "inv_value (Invader v a sp rx rs) = v"
    by (simp add: Invader_def Let_def)
  ultimately show ?thesis
    using pos sp assms(3) by (simp add: update_def foldl_update_fields)
qed

theorem update_frame_witness:
  "(0 :: real) \<le> 1 / 2 \<and> (0 :: real) \<le> 1 / 10
   \<and> inv_x (update (foldl update (Invader 7 exampleArea ''easy'' (1 / 4) (1 / 2)) [1 / 10, 1 / 20]) (1 / 10)) = 90
   \<and> inv_y (foldl update (Invader 7 exampleArea ''easy'' (1 / 4) (1 / 2)) [1 / 10, 1 / 20])
       \<le> inv_y (update (foldl update (Invader 7 exampleArea ''easy'' (1 / 4) (1 / 2)) [1 / 10, 1 / 20]) (1 / 10))"
proof -
  have h1: "(0 :: real) \<le> 1 / 2" and h2: "(0 :: real) \<le> 1 / 10" by simp_all
  have x: "inv_x (Invader 7 exampleArea ''easy'' (1 / 4) (1 / 2)) = 90"
    by (simp add: Invader_def exampleArea_def Let_def)
  from update_frame [OF h1 h2 refl, of 7 exampleArea "''easy''" "1 / 4" "[1 / 10, 1 / 20]"] x h1 h2
  show ?thesis by simp
qed

section \<open>Settings\<close>

lemma parseInt_defaults:
  "parseInt ''60'' = Some 60" "parseInt ''20'' = Some 20" "parseInt ''7'' = Some 7"
  by (simp_all add: parseInt_def isWhiteSpace_def isDigit_def digitsToInt_def digitVal_def Let_def)

lemma parseInt_0: "parseInt ''0'' = Some 0"
  by (simp add: parseInt_def isWhiteSpace_def isDigit_def digitsToInt_def digitVal_def Let_def)

lemma parseInt_abc: "parseInt ''abc'' = None"
  by (simp add: parseInt_def isWhiteSpace_def isDigit_def digitsToInt_def digitVal_def Let_def)

lemma parseInt_Nil: "parseInt [] = None"
  by (simp add: parseInt_def)

lemma getSettings_mode: "mode (settings (getSettings f g)) = checkedOr (modeEl f) ''time''"
  by (simp add: getSettings_def Let_def)

lemma getSettings_limit:
  "limit (settings (getSettings f g)) =
     (if mode (settings (getSettings f g)) = ''time''
      then (case parseInt (valueOr (timeLimitEl f) ''60'') of None \<Rightarrow> 60
            | Some t \<Rightarrow> if t \<le> 0 then 60 else t)
      else (case parseInt (valueOr (scoreLimitEl f) ''20'') of None \<Rightarrow> 20
            | Some s \<Rightarrow> if s \<le> 0 then 20 else s))"
  by (simp add: getSettings_def Let_def)

lemma getSettings_fixedMultiplier:
  "fixedMultiplier (settings (getSettings f g)) =
     (case parseInt (valueOr (fixedMultiplierEl f) ''7'') of None \<Rightarrow> 1
      | Some m \<Rightarrow> if m < 1 then 1 else if m > 12 then 12 else m)"
  by (simp add: getSettings_def Let_def split: option.splits)

lemma getSettings_fixedMultiplier_range:
  "1 \<le> fixedMultiplier (settings (getSettings f g))
   \<and> fixedMultiplier (settings (getSettings f g)) \<le> 12"
  by (simp add: getSettings_fixedMultiplier split: option.splits)

text \<open>
  C4: the numeric settings are clamped, never rejected. A field is missing when its
  element is absent or its value is empty, and non-numeric when its value is not empty
  and \<open>parseInt\<close> gives \<open>NaN\<close>. In timed mode the limit is the duration: 60 when
  the field is missing, non-numeric, or parses to at most 0, and the parsed value
  otherwise. In the other mode the limit is the target score, with 20 in the same
  cases. The fixed multiplier is 1 when the field is non-numeric or parses below 1, 12
  when it parses above 12, the parsed value in between, and 7 when the field is
  missing; it always lies between 1 and 12.
\<close>

theorem getSettings_clamps:
  "(mode (settings (getSettings f g)) = ''time'' \<longrightarrow>
      (timeLimitEl f = None \<or> timeLimitEl f = Some [] \<longrightarrow> limit (settings (getSettings f g)) = 60)
    \<and> (\<forall>s. timeLimitEl f = Some s \<and> parseInt s = None \<longrightarrow> limit (settings (getSettings f g)) = 60)
    \<and> (\<forall>s t. timeLimitEl f = Some s \<and> parseInt s = Some t \<and> t \<le> 0 \<longrightarrow>
          limit (settings (getSettings f g)) = 60)
    \<and> (\<forall>s t. timeLimitEl f = Some s \<and> parseInt s = Some t \<and> 0 < t \<longrightarrow>
          limit (settings (getSettings f g)) = t))
   \<and> (mode (settings (getSettings f g)) \<noteq> ''time'' \<longrightarrow>
      (scoreLimitEl f = None \<or> scoreLimitEl f = Some [] \<longrightarrow> limit (settings (getSettings f g)) = 20)
    \<and> (\<forall>s. scoreLimitEl f = Some s \<and> parseInt s = None \<longrightarrow> limit (settings (getSettings f g)) = 20)
    \<and> (\<forall>s t. scoreLimitEl f = Some s \<and> parseInt s = Some t \<and> t \<le> 0 \<longrightarrow>
          limit (settings (getSettings f g)) = 20)
    \<and> (\<forall>s t. scoreLimitEl f = Some s \<and> parseInt s = Some t \<and> 0 < t \<longrightarrow>
          limit (settings (getSettings f g)) = t))
   \<and> (fixedMultiplierEl f = None \<or> fixedMultiplierEl f = Some [] \<longrightarrow>
        fixedMultiplier (settings (getSettings f g)) = 7)
   \<and> (\<forall>s. fixedMultiplierEl f = Some s \<and> s \<noteq> [] \<and> parseInt s = None \<longrightarrow>
        fixedMultiplier (settings (getSettings f g)) = 1)
   \<and> (\<forall>s m. fixedMultiplierEl f = Some s \<and> parseInt s = Some m \<and> m < 1 \<longrightarrow>
        fixedMultiplier (settings (getSettings f g)) = 1)
   \<and> (\<forall>s m. fixedMultiplierEl f = Some s \<and> parseInt s = Some m \<and> 12 < m \<longrightarrow>
        fixedMultiplier (settings (getSettings f g)) = 12)
   \<and> (\<forall>s m. fixedMultiplierEl f = Some s \<and> parseInt s = Some m \<and> 1 \<le> m \<and> m \<le> 12 \<longrightarrow>
        fixedMultiplier (settings (getSettings f g)) = m)
   \<and> 1 \<le> fixedMultiplier (settings (getSettings f g))
   \<and> fixedMultiplier (settings (getSettings f g)) \<le> 12"
proof -
  have nonempty: "\<And>s x. parseInt s = Some x \<Longrightarrow> s \<noteq> []"
    using parseInt_Nil by auto
  have tl: "mode (settings (getSettings f g)) = ''time'' \<Longrightarrow>
      (timeLimitEl f = None \<or> timeLimitEl f = Some [] \<longrightarrow> limit (settings (getSettings f g)) = 60)
    \<and> (\<forall>s. timeLimitEl f = Some s \<and> parseInt s = None \<longrightarrow> limit (settings (getSettings f g)) = 60)
    \<and> (\<forall>s t. timeLimitEl f = Some s \<and> parseInt s = Some t \<and> t \<le> 0 \<longrightarrow>
          limit (settings (getSettings f g)) = 60)
    \<and> (\<forall>s t. timeLimitEl f = Some s \<and> parseInt s = Some t \<and> 0 < t \<longrightarrow>
          limit (settings (getSettings f g)) = t)"
    using nonempty
    by (auto simp add: getSettings_limit valueOr_def parseInt_defaults split: option.splits)
  have sl: "mode (settings (getSettings f g)) \<noteq> ''time'' \<Longrightarrow>
      (scoreLimitEl f = None \<or> scoreLimitEl f = Some [] \<longrightarrow> limit (settings (getSettings f g)) = 20)
    \<and> (\<forall>s. scoreLimitEl f = Some s \<and> parseInt s = None \<longrightarrow> limit (settings (getSettings f g)) = 20)
    \<and> (\<forall>s t. scoreLimitEl f = Some s \<and> parseInt s = Some t \<and> t \<le> 0 \<longrightarrow>
          limit (settings (getSettings f g)) = 20)
    \<and> (\<forall>s t. scoreLimitEl f = Some s \<and> parseInt s = Some t \<and> 0 < t \<longrightarrow>
          limit (settings (getSettings f g)) = t)"
    using nonempty
    by (auto simp add: getSettings_limit valueOr_def parseInt_defaults split: option.splits)
  have fm: "(fixedMultiplierEl f = None \<or> fixedMultiplierEl f = Some [] \<longrightarrow>
        fixedMultiplier (settings (getSettings f g)) = 7)
   \<and> (\<forall>s. fixedMultiplierEl f = Some s \<and> s \<noteq> [] \<and> parseInt s = None \<longrightarrow>
        fixedMultiplier (settings (getSettings f g)) = 1)
   \<and> (\<forall>s m. fixedMultiplierEl f = Some s \<and> parseInt s = Some m \<and> m < 1 \<longrightarrow>
        fixedMultiplier (settings (getSettings f g)) = 1)
   \<and> (\<forall>s m. fixedMultiplierEl f = Some s \<and> parseInt s = Some m \<and> 12 < m \<longrightarrow>
        fixedMultiplier (settings (getSettings f g)) = 12)
   \<and> (\<forall>s m. fixedMultiplierEl f = Some s \<and> parseInt s = Some m \<and> 1 \<le> m \<and> m \<le> 12 \<longrightarrow>
        fixedMultiplier (settings (getSettings f g)) = m)"
    using nonempty
    by (auto simp add: getSettings_fixedMultiplier valueOr_def parseInt_defaults split: option.splits)
  from tl sl fm getSettings_fixedMultiplier_range [of f g] show ?thesis by blast
qed

text \<open>
  The instances the claim names: duration 0 gives 60, fixed multiplier 15 gives 12 and
  fixed multiplier 0 gives 1; and a target score of \<open>abc\<close> gives 20.
\<close>

theorem getSettings_clamps_witness:
  "limit (settings (getSettings (exampleForm ''time'' ''fixed'' ''0'' ''abc'' ''15'')
      (newGame exampleArea))) = 60
   \<and> fixedMultiplier (settings (getSettings (exampleForm ''time'' ''fixed'' ''0'' ''abc'' ''15'')
      (newGame exampleArea))) = 12
   \<and> limit (settings (getSettings (exampleForm ''score'' ''fixed'' ''0'' ''abc'' ''0'')
      (newGame exampleArea))) = 20
   \<and> fixedMultiplier (settings (getSettings (exampleForm ''score'' ''fixed'' ''0'' ''abc'' ''0'')
      (newGame exampleArea))) = 1"
proof -
  let ?f = "exampleForm ''time'' ''fixed'' ''0'' ''abc'' ''15''"
  let ?h = "exampleForm ''score'' ''fixed'' ''0'' ''abc'' ''0''"
  let ?g = "newGame exampleArea"
  have m1: "mode (settings (getSettings ?f ?g)) = ''time''"
    by (simp add: getSettings_mode exampleForm_def checkedOr_def)
  have m2: "mode (settings (getSettings ?h ?g)) \<noteq> ''time''"
    by (simp add: getSettings_mode exampleForm_def checkedOr_def)
  have a: "timeLimitEl ?f = Some ''0'' \<and> parseInt ''0'' = Some 0 \<and> (0::int) \<le> 0"
    by (simp add: exampleForm_def parseInt_0)
  have b: "fixedMultiplierEl ?f = Some ''15'' \<and> parseInt ''15'' = Some 15 \<and> (12::int) < 15"
    by (simp add: exampleForm_def parseInt_15)
  have c: "scoreLimitEl ?h = Some ''abc'' \<and> parseInt ''abc'' = None"
    by (simp add: exampleForm_def parseInt_abc)
  have d: "fixedMultiplierEl ?h = Some ''0'' \<and> parseInt ''0'' = Some 0 \<and> (0::int) < 1"
    by (simp add: exampleForm_def parseInt_0)
  from getSettings_clamps [of ?f ?g] m1 a b
  have "limit (settings (getSettings ?f ?g)) = 60
        \<and> fixedMultiplier (settings (getSettings ?f ?g)) = 12"
    by blast
  moreover from getSettings_clamps [of ?h ?g] m2 c d
  have "limit (settings (getSettings ?h ?g)) = 20
        \<and> fixedMultiplier (settings (getSettings ?h ?g)) = 1"
    by blast
  ultimately show ?thesis by blast
qed

section \<open>What the events of a session keep\<close>

lemma showSettings_fields:
  "spawnInterval (showSettings g) = spawnInterval g"
  "multiplier (showSettings g) = multiplier g"
  "settings (showSettings g) = settings g"
  "currentAnswer (showSettings g) = currentAnswer g"
  "screen (showSettings g) = SettingsScreen"
  by (simp_all add: showSettings_def cleanup_def)

lemma timerTick_fields:
  "spawnInterval (timerTick g) = spawnInterval g"
  "multiplier (timerTick g) = multiplier g"
  "settings (timerTick g) = settings g"
  "currentAnswer (timerTick g) = currentAnswer g"
  by (simp_all add: timerTick_def Let_def endGame_fields)

lemma alertTimeout_fields:
  "spawnInterval (alertTimeout g) = spawnInterval g"
  "multiplier (alertTimeout g) = multiplier g"
  "settings (alertTimeout g) = settings g"
  "currentAnswer (alertTimeout g) = currentAnswer g"
  "screen (alertTimeout g) = screen g"
  by (simp_all add: alertTimeout_def)

lemma checkAnswer_fields:
  "spawnInterval (checkAnswer g) = spawnInterval g"
  "multiplier (checkAnswer g) = multiplier g"
  "settings (checkAnswer g) = settings g"
  by (simp_all add: checkAnswer_def Let_def endGame_fields showAlert_def)

lemma checkAnswer_clears: "currentAnswer (checkAnswer g) = []"
  by (simp add: checkAnswer_def Let_def)

lemma handleKeypadInput_fields:
  "spawnInterval (handleKeypadInput g key) = spawnInterval g"
  "multiplier (handleKeypadInput g key) = multiplier g"
  "settings (handleKeypadInput g key) = settings g"
  by (simp_all add: handleKeypadInput_def checkAnswer_fields)

lemma keypadClick_fields:
  "spawnInterval (keypadClick g key) = spawnInterval g"
  "multiplier (keypadClick g key) = multiplier g"
  "settings (keypadClick g key) = settings g"
  by (simp_all add: keypadClick_def handleKeypadInput_fields)

lemma keydown_fields:
  "spawnInterval (keydown g key) = spawnInterval g"
  "multiplier (keydown g key) = multiplier g"
  "settings (keydown g key) = settings g"
  by (simp_all add: keydown_def handleKeypadInput_fields)

lemma startSetup_fields:
  "spawnInterval (startSetup f rm dateNow g) = 2500"
  "lastSpawnTime (startSetup f rm dateNow g) = dateNow - 2501"
  "currentAnswer (startSetup f rm dateNow g) = []"
  "screen (startSetup f rm dateNow g) = GameScreen"
  "settings (startSetup f rm dateNow g) = settings (getSettings f g)"
  "scoreRight (startSetup f rm dateNow g) = 0"
  "scoreWrong (startSetup f rm dateNow g) = 0"
  "invaders (startSetup f rm dateNow g) = []"
  by (simp_all add: startSetup_def Let_def setMultiplier_def cleanup_def)

lemma startSetup_multiplier:
  "multiplier (startSetup f rm dateNow g) =
     (if multiplierMode (settings (getSettings f g)) = ''fixed''
      then fixedMultiplier (settings (getSettings f g))
      else if difficulty (settings (getSettings f g)) = ''single'' then \<lfloor>rm * 9\<rfloor> + 1
      else \<lfloor>rm * 12\<rfloor> + 1)"
  by (simp add: startSetup_def Let_def setMultiplier_def cleanup_def)

lemma run_Cons: "run g (e # evs) = run (step g e) evs"
  by (simp add: run_def)

section \<open>The spawn interval\<close>

lemma spawnStep_interval_inv:
  assumes "600 \<le> spawnInterval g \<and> spawnInterval g \<le> 2500 \<and> 50 dvd spawnInterval g"
  shows "600 \<le> spawnInterval (spawnStep env g) \<and> spawnInterval (spawnStep env g) \<le> 2500
         \<and> 50 dvd spawnInterval (spawnStep env g)"
proof -
  obtain k where k: "spawnInterval g = 50 * k" using assms by (auto simp: dvd_def)
  show ?thesis
  proof (cases "wallNow env - lastSpawnTime g \<ge> spawnInterval g \<and> spawnInterval g > 600")
    case True
    then have "spawnInterval (spawnStep env g) = 50 * (k - 1)"
      using k by (simp add: spawnStep_spawnInterval)
    moreover have "12 < k" using True k by simp
    moreover have "k \<le> 50" using assms k by simp
    ultimately show ?thesis by simp
  next
    case False
    then have "spawnInterval (spawnStep env g) = spawnInterval g"
      by (auto simp add: spawnStep_spawnInterval)
    then show ?thesis using assms by simp
  qed
qed

lemma step_interval_inv:
  assumes "600 \<le> spawnInterval g \<and> spawnInterval g \<le> 2500 \<and> 50 dvd spawnInterval g"
  shows "600 \<le> spawnInterval (step g e) \<and> spawnInterval (step g e) \<le> 2500
         \<and> 50 dvd spawnInterval (step g e)"
proof (cases e)
  case (Start f rm dateNow env)
  have "600 \<le> spawnInterval (startSetup f rm dateNow g)
        \<and> spawnInterval (startSetup f rm dateNow g) \<le> 2500
        \<and> 50 dvd spawnInterval (startSetup f rm dateNow g)"
    by (simp add: startSetup_fields)
  from spawnStep_interval_inv [OF this] show ?thesis
    using Start by (simp add: start_def gameLoop_fields)
next
  case (Frame t env)
  then show ?thesis
    using assms spawnStep_interval_inv [OF assms] by (simp add: gameLoop_fields)
qed (use assms in \<open>simp_all add: showSettings_fields timerTick_fields alertTimeout_fields
        keypadClick_fields keydown_fields\<close>)

lemma run_interval_inv:
  "600 \<le> spawnInterval g \<and> spawnInterval g \<le> 2500 \<and> 50 dvd spawnInterval g \<Longrightarrow>
   600 \<le> spawnInterval (run g evs) \<and> spawnInterval (run g evs) \<le> 2500
   \<and> 50 dvd spawnInterval (run g evs)"
proof (induction evs arbitrary: g)
  case Nil
  then show ?case by (simp add: run_def)
next
  case (Cons e evs)
  show ?case using Cons.IH [OF step_interval_inv [OF Cons.prems]] by (simp add: run_Cons)
qed

text \<open>
  C5: \<open>start\<close> sets the spawn interval to 2500 before it runs the first frame. A frame
  spawns (one invader is appended and the time of the last spawn becomes the wall
  clock) exactly when the wall clock minus the time of the last spawn is at least the
  interval; a spawn takes 50 off an interval above 600 and nothing else changes the
  interval in a frame. After any events since the controller was built the interval
  lies between 600 and 2500.
\<close>

theorem spawn_interval_policy:
  "spawnInterval (startSetup f rm dateNow g0) = 2500
   \<and> start f rm dateNow env0 g0 = gameLoop None env0 (startSetup f rm dateNow g0)
   \<and> 600 \<le> spawnInterval (run (newGame a) evs)
   \<and> spawnInterval (run (newGame a) evs) \<le> 2500
   \<and> invaders (spawnStep env g) =
       (if wallNow env - lastSpawnTime g \<ge> spawnInterval g
        then invaders (spawnInvader g (rValue env) (rX env) (rSpeed env)) else invaders g)
   \<and> length (invaders (spawnStep env g)) =
       (if wallNow env - lastSpawnTime g \<ge> spawnInterval g
        then length (invaders g) + 1 else length (invaders g))
   \<and> spawnInterval (gameLoop ts env g) =
       (if wallNow env - lastSpawnTime g \<ge> spawnInterval g \<and> spawnInterval g > 600
        then spawnInterval g - 50 else spawnInterval g)
   \<and> lastSpawnTime (gameLoop ts env g) =
       (if wallNow env - lastSpawnTime g \<ge> spawnInterval g then wallNow env else lastSpawnTime g)"
proof -
  have "600 \<le> spawnInterval (newGame a) \<and> spawnInterval (newGame a) \<le> 2500
        \<and> 50 dvd spawnInterval (newGame a)"
    by (simp add: newGame_def)
  from run_interval_inv [OF this]
  have "600 \<le> spawnInterval (run (newGame a) evs) \<and> spawnInterval (run (newGame a) evs) \<le> 2500"
    by simp
  moreover have "length (invaders (spawnStep env g)) =
       (if wallNow env - lastSpawnTime g \<ge> spawnInterval g
        then length (invaders g) + 1 else length (invaders g))"
    by (simp add: spawnStep_invaders spawnInvader_def Let_def)
  ultimately show ?thesis
    by (simp add: startSetup_fields start_def gameLoop_fields spawnStep_spawnInterval
        spawnStep_lastSpawnTime spawnStep_invaders)
qed

section \<open>The pending input\<close>

lemma js_lt_Nil_right: "\<not> js_lt s []"
  by (cases s) simp_all

lemma isDigitKey_hd: "isDigitKey key \<Longrightarrow> key \<noteq> [] \<and> isDigit (hd key)"
proof (cases key)
  case Nil
  assume "isDigitKey key"
  with Nil show ?thesis by (simp add: isDigitKey_def)
next
  case (Cons c cs)
  assume "isDigitKey key"
  with Cons show ?thesis
    by (auto simp add: isDigitKey_def isDigit_def js_lt_Nil_right split: if_splits)
qed

text \<open>A string that begins with a digit parses.\<close>

lemma parseInt_digit_hd:
  assumes "s \<noteq> []" and "isDigit (hd s)"
  shows "parseInt s \<noteq> None"
proof -
  obtain c cs where s: "s = c # cs" using assms(1) by (cases s) auto
  have d: "isDigit c" using assms(2) s by simp
  have nw: "\<not> isWhiteSpace c" using d by (auto simp add: isDigit_def isWhiteSpace_def)
  have ns: "c \<noteq> CHR ''-'' \<and> c \<noteq> CHR ''+''" using d by (auto simp add: isDigit_def)
  show ?thesis using s d nw ns by (simp add: parseInt_def Let_def)
qed

lemma answer_inv_append:
  assumes "s = [] \<or> isDigit (hd s)" and "isDigitKey key"
  shows "s @ key = [] \<or> isDigit (hd (s @ key))"
  using assms isDigitKey_hd [OF assms(2)] by (cases s) auto

lemma answer_inv_butlast:
  assumes "s = [] \<or> isDigit (hd s)"
  shows "butlast s = [] \<or> isDigit (hd (butlast s))"
  using assms by (cases s) (auto split: if_splits)

lemma handleKeypadInput_answer_inv:
  assumes "currentAnswer g = [] \<or> isDigit (hd (currentAnswer g))"
  shows "currentAnswer (handleKeypadInput g key) = []
         \<or> isDigit (hd (currentAnswer (handleKeypadInput g key)))"
proof -
  consider (digit) "isDigitKey key" | (del) "\<not> isDigitKey key" "key = ''del''"
    | (submit) "\<not> isDigitKey key" "key \<noteq> ''del''" "key = ''submit''"
    | (other) "\<not> isDigitKey key" "key \<noteq> ''del''" "key \<noteq> ''submit''"
    by blast
  then show ?thesis
  proof cases
    case digit
    then show ?thesis
      using assms answer_inv_append [OF assms digit] by (simp add: handleKeypadInput_def)
  next
    case del
    then show ?thesis
      using answer_inv_butlast [OF assms] by (simp add: handleKeypadInput_def)
  next
    case submit
    then show ?thesis by (simp add: handleKeypadInput_def checkAnswer_clears)
  next
    case other
    then show ?thesis using assms by (simp add: handleKeypadInput_def)
  qed
qed

lemma step_answer_inv:
  assumes "currentAnswer g = [] \<or> isDigit (hd (currentAnswer g))"
  shows "currentAnswer (step g e) = [] \<or> isDigit (hd (currentAnswer (step g e)))"
proof (cases e)
  case (Start f rm dateNow env)
  then show ?thesis by (simp add: start_def gameLoop_fields startSetup_fields)
next
  case (KeypadClick key)
  then show ?thesis
    using assms handleKeypadInput_answer_inv [OF assms] by (simp add: keypadClick_def)
next
  case (Keydown key)
  then show ?thesis
    using assms handleKeypadInput_answer_inv [OF assms] by (simp add: keydown_def)
qed (use assms in \<open>simp_all add: showSettings_fields gameLoop_fields timerTick_fields
       alertTimeout_fields\<close>)

lemma run_answer_inv:
  "currentAnswer g = [] \<or> isDigit (hd (currentAnswer g)) \<Longrightarrow>
   currentAnswer (run g evs) = [] \<or> isDigit (hd (currentAnswer (run g evs)))"
proof (induction evs arbitrary: g)
  case Nil
  then show ?case by (simp add: run_def)
next
  case (Cons e evs)
  show ?case using Cons.IH [OF step_answer_inv [OF Cons.prems]] by (simp add: run_Cons)
qed

lemma isDigitKey_submit: "\<not> isDigitKey ''submit''" "''submit'' \<noteq> ''del''"
  by (simp_all add: isDigitKey_def)

lemma handleKeypadInput_submit: "handleKeypadInput g ''submit'' = checkAnswer g"
  by (simp add: handleKeypadInput_def isDigitKey_submit)

text \<open>
  \<open>checkAnswer\<close> tests only for the empty string. A pending input that is not empty
  and does not parse would be counted as a wrong answer; by \<open>run_answer_inv\<close> no
  sequence of events composes such an input.
\<close>

lemma checkAnswer_no_NaN_guard:
  "parseInt (currentAnswer (exampleGame ''time'' 60 ''x'')) = None
   \<and> scoreWrong (exampleGame ''time'' 60 ''x'') = 0
   \<and> scoreWrong (checkAnswer (exampleGame ''time'' 60 ''x'')) = 1
   \<and> gameAlert (checkAnswer (exampleGame ''time'' 60 ''x'')) = Some (''Wrong!'', ''wrong'')"
  by (simp add: exampleGame_def newGame_def checkAnswer_def Let_def exampleInvader_def
        showAlert_def parseInt_def isWhiteSpace_def isDigit_def)

text \<open>
  C9: a submission with an empty pending input returns the controller as it is: the
  counters, the invaders, the pending input and the alert are all unchanged. And in
  every state that events lead to from the constructed controller, a pending input that
  does not parse as an integer is the empty one, so that its submission changes nothing
  either.
\<close>

theorem submit_empty_noop:
  "(currentAnswer g = [] \<longrightarrow> checkAnswer g = g \<and> handleKeypadInput g ''submit'' = g)
   \<and> (parseInt (currentAnswer (run (newGame a) evs)) = None \<longrightarrow>
        currentAnswer (run (newGame a) evs) = []
      \<and> handleKeypadInput (run (newGame a) evs) ''submit'' = run (newGame a) evs)"
proof -
  have "currentAnswer (newGame a) = [] \<or> isDigit (hd (currentAnswer (newGame a)))"
    by (simp add: newGame_def)
  from run_answer_inv [OF this]
  have inv: "currentAnswer (run (newGame a) evs) = []
             \<or> isDigit (hd (currentAnswer (run (newGame a) evs)))" .
  have "parseInt (currentAnswer (run (newGame a) evs)) = None \<Longrightarrow>
        currentAnswer (run (newGame a) evs) = []"
    using inv parseInt_digit_hd by blast
  then show ?thesis
    by (auto simp add: handleKeypadInput_submit checkAnswer_empty)
qed

theorem submit_empty_noop_witness:
  "currentAnswer (newGame exampleArea) = []
   \<and> handleKeypadInput (newGame exampleArea) ''submit'' = newGame exampleArea
   \<and> parseInt (currentAnswer (run (newGame exampleArea) [KeypadClick ''5'', KeypadClick ''del'']))
       = None
   \<and> handleKeypadInput (run (newGame exampleArea) [KeypadClick ''5'', KeypadClick ''del'']) ''submit''
       = run (newGame exampleArea) [KeypadClick ''5'', KeypadClick ''del'']"
proof -
  have h1: "currentAnswer (newGame exampleArea) = []" by (simp add: newGame_def)
  have h2: "parseInt (currentAnswer (run (newGame exampleArea)
              [KeypadClick ''5'', KeypadClick ''del''])) = None"
    by (simp add: run_def newGame_def keypadClick_def handleKeypadInput_def isDigitKey_def
          parseInt_def)
  from submit_empty_noop [of "newGame exampleArea" exampleArea
      "[KeypadClick ''5'', KeypadClick ''del'']"] h1 h2
  show ?thesis by blast
qed

section \<open>How a session ends\<close>

lemma checkAnswer_screen:
  "screen (checkAnswer g) = screen g
   \<or> (mode (settings g) = ''score''
      \<and> (\<exists>g2. scoreRight g2 \<ge> limit (settings g) \<and> scoreRight g2 = scoreRight g + 1
            \<and> checkAnswer g = (endGame g2 True)\<lparr>currentAnswer := []\<rparr>))"
proof (cases "currentAnswer g = []")
  case True
  then show ?thesis by (simp add: checkAnswer_empty)
next
  case False
  let ?k = "findCorrectIndex (multiplier g) (parseInt (currentAnswer g)) (invaders g) 0"
  let ?g2 = "showAlert (g\<lparr>invaders := take (nat ?k) (invaders g) @ drop (Suc (nat ?k)) (invaders g),
                           scoreRight := scoreRight g + 1\<rparr>) ''Correct!'' ''correct''"
  show ?thesis
  proof (cases "?k \<noteq> - 1 \<and> mode (settings g) = ''score'' \<and> scoreRight g + 1 \<ge> limit (settings g)")
    case True
    then have "checkAnswer g = (endGame ?g2 True)\<lparr>currentAnswer := []\<rparr>"
      using False by (simp add: checkAnswer_def Let_def showAlert_def)
    moreover have "scoreRight ?g2 = scoreRight g + 1" by (simp add: showAlert_def)
    ultimately show ?thesis using True by auto
  next
    case no_end: False
    then have "screen (checkAnswer g) = screen g"
      using False by (auto simp add: checkAnswer_def Let_def showAlert_def)
    then show ?thesis by simp
  qed
qed

lemma handleKeypadInput_screen:
  "screen (handleKeypadInput g key) = screen g
   \<or> (mode (settings g) = ''score''
      \<and> (\<exists>g2. scoreRight g2 \<ge> limit (settings g) \<and> scoreRight g2 = scoreRight g + 1
            \<and> handleKeypadInput g key = (endGame g2 True)\<lparr>currentAnswer := []\<rparr>))"
  using checkAnswer_screen [of g] by (auto simp add: handleKeypadInput_def)

lemma timerTick_screen:
  "screen (timerTick g) = screen g
   \<or> (timeLeft g - 1 \<le> 0 \<and> timerTick g = endGame (g\<lparr>timeLeft := timeLeft g - 1\<rparr>) True)"
  by (simp add: timerTick_def Let_def)

lemma ended_resolution:
  assumes "s = (endGame g' True)\<lparr>currentAnswer := c\<rparr>"
  shows "(gameOverTitle s = ''You Win!'') = (scoreWrong s \<le> scoreRight s)
       \<and> (gameOverTitle s = ''You Lost!'') = (scoreWrong s > scoreRight s)
       \<and> winCelebration s = (scoreWrong s \<le> scoreRight s)
       \<and> scoreRight s = scoreRight g' \<and> scoreWrong s = scoreWrong g'"
  using assms by (auto simp add: endGame_fields endGame_True_title endGame_True_celebration)

text \<open>The countdown runs in timed mode only.\<close>

lemma cleanup_timer: "\<not> timerId (cleanup g)"
  by (simp add: cleanup_def)

lemma endGame_timer: "\<not> timerId (endGame g w)"
  by (simp add: endGame_def finalizeEndGame_def cleanup_def stopGameForCelebration_def
        startWinCelebration_def Let_def)

lemma gameLoop_timer: "timerId (gameLoop ts env g) = timerId g"
  by (simp add: gameLoop_def Let_def sweep_all spawnStep_def spawnInvader_def)

lemma checkAnswer_timer: "timerId (checkAnswer g) \<Longrightarrow> timerId g"
  by (simp add: checkAnswer_def Let_def endGame_timer showAlert_def split: if_splits)

lemma handleKeypadInput_timer: "timerId (handleKeypadInput g key) \<Longrightarrow> timerId g"
  using checkAnswer_timer [of g] by (simp add: handleKeypadInput_def split: if_splits)

lemma startSetup_timer:
  "timerId (startSetup f rm dateNow g) = (mode (settings (getSettings f g)) = ''time'')"
  by (simp add: startSetup_def Let_def setMultiplier_def cleanup_def)

lemma step_timer_inv:
  assumes "timerId g \<longrightarrow> mode (settings g) = ''time''"
  shows "timerId (step g e) \<longrightarrow> mode (settings (step g e)) = ''time''"
proof (cases e)
  case (Start f rm dateNow env)
  then show ?thesis
    by (simp add: start_def gameLoop_timer gameLoop_fields startSetup_timer startSetup_fields)
next
  case Restart
  then show ?thesis by (simp add: showSettings_def cleanup_timer)
next
  case (Frame t env)
  then show ?thesis using assms by (simp add: gameLoop_timer gameLoop_fields)
next
  case Tick
  then show ?thesis using assms by (simp add: timerTick_def Let_def endGame_timer)
next
  case AlertTimeout
  then show ?thesis using assms by (simp add: alertTimeout_def)
next
  case (KeypadClick key)
  then show ?thesis
    using assms handleKeypadInput_timer [of g key]
    by (auto simp add: keypadClick_def handleKeypadInput_fields)
next
  case (Keydown key)
  then show ?thesis
    using assms handleKeypadInput_timer [of g key] handleKeypadInput_timer [of g "''submit''"]
      handleKeypadInput_timer [of g "''del''"]
    by (auto simp add: keydown_def handleKeypadInput_fields split: if_splits)
qed

lemma run_timer_inv:
  "timerId g \<longrightarrow> mode (settings g) = ''time'' \<Longrightarrow>
   timerId (run g evs) \<longrightarrow> mode (settings (run g evs)) = ''time''"
proof (induction evs arbitrary: g)
  case Nil
  then show ?case by (simp add: run_def)
next
  case (Cons e evs)
  show ?case using Cons.IH [OF step_timer_inv [OF Cons.prems]] by (simp add: run_Cons)
qed

lemma reachable_timer:
  "timerId (run (newGame a) evs) \<Longrightarrow> mode (settings (run (newGame a) evs)) = ''time''"
  using run_timer_inv [of "newGame a" evs] by (simp add: newGame_def)

lemma step_to_game_over:
  assumes "screen g \<noteq> GameOverScreen" and "screen (step g e) = GameOverScreen"
  shows "(\<exists>g' c. step g e = (endGame g' True)\<lparr>currentAnswer := c\<rparr>)
       \<and> ((e = Tick \<and> timerId g \<and> timeLeft g - 1 \<le> 0)
          \<or> ((\<exists>key. e = KeypadClick key \<or> e = Keydown key) \<and> mode (settings g) = ''score''
              \<and> scoreRight (step g e) = scoreRight g + 1
              \<and> scoreRight (step g e) \<ge> limit (settings g)))"
proof (cases e)
  case (Start f rm dateNow env)
  then show ?thesis using assms(2) by (simp add: start_def gameLoop_fields startSetup_fields)
next
  case Restart
  then show ?thesis using assms(2) by (simp add: showSettings_fields)
next
  case (Frame t env)
  then show ?thesis using assms by (simp add: gameLoop_fields split: if_splits)
next
  case Tick
  show ?thesis
  proof (cases "timerId g")
    case True
    with Tick timerTick_screen [of g] assms
    have "timeLeft g - 1 \<le> 0 \<and> timerTick g = endGame (g\<lparr>timeLeft := timeLeft g - 1\<rparr>) True"
      by auto
    moreover have "endGame (g\<lparr>timeLeft := timeLeft g - 1\<rparr>) True
         = (endGame (g\<lparr>timeLeft := timeLeft g - 1\<rparr>) True)
             \<lparr>currentAnswer := currentAnswer (endGame (g\<lparr>timeLeft := timeLeft g - 1\<rparr>) True)\<rparr>"
      by simp
    ultimately show ?thesis using Tick True by (metis step.simps(4))
  next
    case False
    with Tick assms show ?thesis by simp
  qed
next
  case AlertTimeout
  then show ?thesis using assms by (simp add: alertTimeout_fields split: if_splits)
next
  case (KeypadClick key)
  with handleKeypadInput_screen [of g key] assms
  have "mode (settings g) = ''score''
    \<and> (\<exists>g2. scoreRight g2 \<ge> limit (settings g) \<and> scoreRight g2 = scoreRight g + 1
          \<and> step g e = (endGame g2 True)\<lparr>currentAnswer := []\<rparr>)"
    by (auto simp add: keypadClick_def split: if_splits)
  then show ?thesis using KeypadClick by (auto simp add: endGame_fields)
next
  case (Keydown key)
  have "screen (keydown g key) = screen g
     \<or> (mode (settings g) = ''score''
        \<and> (\<exists>g2. scoreRight g2 \<ge> limit (settings g) \<and> scoreRight g2 = scoreRight g + 1
          \<and> keydown g key = (endGame g2 True)\<lparr>currentAnswer := []\<rparr>))"
    using handleKeypadInput_screen [of g key] handleKeypadInput_screen [of g "''submit''"]
      handleKeypadInput_screen [of g "''del''"]
    by (auto simp add: keydown_def)
  with Keydown assms
  have "mode (settings g) = ''score''
    \<and> (\<exists>g2. scoreRight g2 \<ge> limit (settings g) \<and> scoreRight g2 = scoreRight g + 1
          \<and> step g e = (endGame g2 True)\<lparr>currentAnswer := []\<rparr>)"
    by auto
  then show ?thesis using Keydown by (auto simp add: endGame_fields)
qed

lemma timerTick_ends:
  "timeLeft g \<le> 1 \<Longrightarrow> timerTick g = endGame (g\<lparr>timeLeft := timeLeft g - 1\<rparr>) True"
  by (simp add: timerTick_def Let_def)

lemma timerTick_continues:
  "1 < timeLeft g \<Longrightarrow> timerTick g = g\<lparr>timeLeft := timeLeft g - 1\<rparr>"
  by (simp add: timerTick_def Let_def)

lemma checkAnswer_reaches_target:
  assumes "mode (settings g) = ''score''" and "currentAnswer g \<noteq> []"
    and "parseInt (currentAnswer g) = Some ans"
    and "\<exists>iv\<in>set (invaders g). inv_value iv * multiplier g = ans"
    and "limit (settings g) \<le> scoreRight g + 1"
  shows "\<exists>g2. scoreRight g2 = scoreRight g + 1 \<and> scoreWrong g2 = scoreWrong g
              \<and> checkAnswer g = (endGame g2 True)\<lparr>currentAnswer := []\<rparr>"
proof -
  from assms(4) obtain pre iv post where sp: "invaders g = pre @ iv # post"
    and hit: "inv_value iv * multiplier g = ans"
    and miss: "\<forall>p\<in>set pre. inv_value p * multiplier g \<noteq> ans"
    using split_list_first_prop [of "invaders g" "\<lambda>iv. inv_value iv * multiplier g = ans"]
    by blast
  let ?g2 = "showAlert (g\<lparr>invaders := pre @ post, scoreRight := scoreRight g + 1\<rparr>)
               ''Correct!'' ''correct''"
  have "checkAnswer g = (endGame ?g2 True)\<lparr>currentAnswer := []\<rparr>"
    using checkAnswer_right [OF assms(2,3) sp miss hit] assms(1,5) by (simp add: Let_def)
  moreover have "scoreRight ?g2 = scoreRight g + 1 \<and> scoreWrong ?g2 = scoreWrong g"
    by (simp add: showAlert_def)
  ultimately show ?thesis by blast
qed

text \<open>
  C10: in a state that events lead to from the constructed controller,
  \<^item> a tick of the running countdown that finds at most one second left happens in
    timed mode, calls the end of the game with the win flag set (on the state with the
    time left decreased) and shows the game-over screen; a tick that finds more only
    decreases the time left;
  \<^item> in score mode, the submission of a pending input whose integer matches an active
    invader, when the correct count plus one reaches the limit, calls the end of the
    game with the win flag set, on a state with the correct count raised by one, and
    shows the game-over screen;
  \<^item> whenever an event leads from a state that does not show the game-over screen to
    one that does, the event called the end of the game with the win flag set, and it
    is either such a tick in timed mode or a key event in score mode whose answer
    raised the correct count by one to the limit or above; the title is a win exactly
    when the wrong count does not exceed the correct count at that moment, a loss
    otherwise, and the win celebration runs exactly for a win.
\<close>

theorem game_over_resolution:
  assumes "g = run (newGame a) evs"
  shows "(timerId g \<and> timeLeft g \<le> 1 \<longrightarrow>
            mode (settings g) = ''time''
          \<and> step g Tick = endGame (g\<lparr>timeLeft := timeLeft g - 1\<rparr>) True
          \<and> screen (step g Tick) = GameOverScreen
          \<and> scoreRight (step g Tick) = scoreRight g
          \<and> scoreWrong (step g Tick) = scoreWrong g)
       \<and> (timerId g \<and> 1 < timeLeft g \<longrightarrow> step g Tick = g\<lparr>timeLeft := timeLeft g - 1\<rparr>)
       \<and> (mode (settings g) = ''score'' \<and> currentAnswer g \<noteq> []
            \<and> parseInt (currentAnswer g) = Some ans
            \<and> (\<exists>iv\<in>set (invaders g). inv_value iv * multiplier g = ans)
            \<and> limit (settings g) \<le> scoreRight g + 1 \<longrightarrow>
            (\<exists>g2. scoreRight g2 = scoreRight g + 1 \<and> scoreWrong g2 = scoreWrong g
                 \<and> step g (KeypadClick ''submit'') = (endGame g2 True)\<lparr>currentAnswer := []\<rparr>)
          \<and> screen (step g (KeypadClick ''submit'')) = GameOverScreen)
       \<and> (screen g \<noteq> GameOverScreen \<and> screen (step g e) = GameOverScreen \<longrightarrow>
            (\<exists>g' c. step g e = (endGame g' True)\<lparr>currentAnswer := c\<rparr>)
          \<and> ((e = Tick \<and> mode (settings g) = ''time'' \<and> timeLeft g - 1 \<le> 0)
             \<or> ((\<exists>key. e = KeypadClick key \<or> e = Keydown key) \<and> mode (settings g) = ''score''
                 \<and> scoreRight (step g e) = scoreRight g + 1
                 \<and> scoreRight (step g e) \<ge> limit (settings g)))
          \<and> (gameOverTitle (step g e) = ''You Win!'')
              = (scoreWrong (step g e) \<le> scoreRight (step g e))
          \<and> (gameOverTitle (step g e) = ''You Lost!'')
              = (scoreWrong (step g e) > scoreRight (step g e))
          \<and> winCelebration (step g e) = (scoreWrong (step g e) \<le> scoreRight (step g e)))"
proof -
  have tm: "timerId g \<Longrightarrow> mode (settings g) = ''time''"
    using reachable_timer [of a evs] assms by simp
  have tick: "timerId g \<and> timeLeft g \<le> 1 \<longrightarrow>
            mode (settings g) = ''time''
          \<and> step g Tick = endGame (g\<lparr>timeLeft := timeLeft g - 1\<rparr>) True
          \<and> screen (step g Tick) = GameOverScreen
          \<and> scoreRight (step g Tick) = scoreRight g
          \<and> scoreWrong (step g Tick) = scoreWrong g"
    using tm by (simp add: timerTick_ends endGame_fields)
  have cont: "timerId g \<and> 1 < timeLeft g \<longrightarrow> step g Tick = g\<lparr>timeLeft := timeLeft g - 1\<rparr>"
    by (simp add: timerTick_continues)
  have sub: "step g (KeypadClick ''submit'') = checkAnswer g"
    by (simp add: keypadClick_def handleKeypadInput_submit)
  have score: "mode (settings g) = ''score'' \<and> currentAnswer g \<noteq> []
            \<and> parseInt (currentAnswer g) = Some ans
            \<and> (\<exists>iv\<in>set (invaders g). inv_value iv * multiplier g = ans)
            \<and> limit (settings g) \<le> scoreRight g + 1 \<longrightarrow>
            (\<exists>g2. scoreRight g2 = scoreRight g + 1 \<and> scoreWrong g2 = scoreWrong g
                 \<and> step g (KeypadClick ''submit'') = (endGame g2 True)\<lparr>currentAnswer := []\<rparr>)
          \<and> screen (step g (KeypadClick ''submit'')) = GameOverScreen"
  proof (intro impI)
    assume h: "mode (settings g) = ''score'' \<and> currentAnswer g \<noteq> []
            \<and> parseInt (currentAnswer g) = Some ans
            \<and> (\<exists>iv\<in>set (invaders g). inv_value iv * multiplier g = ans)
            \<and> limit (settings g) \<le> scoreRight g + 1"
    then obtain g2 where g2: "scoreRight g2 = scoreRight g + 1" "scoreWrong g2 = scoreWrong g"
      "checkAnswer g = (endGame g2 True)\<lparr>currentAnswer := []\<rparr>"
      using checkAnswer_reaches_target [of g ans] by blast
    have "screen (checkAnswer g) = GameOverScreen"
      by (simp add: g2(3) endGame_fields)
    with g2 show "(\<exists>g2. scoreRight g2 = scoreRight g + 1 \<and> scoreWrong g2 = scoreWrong g
                 \<and> step g (KeypadClick ''submit'') = (endGame g2 True)\<lparr>currentAnswer := []\<rparr>)
          \<and> screen (step g (KeypadClick ''submit'')) = GameOverScreen"
      unfolding sub by blast
  qed
  have trans: "screen g \<noteq> GameOverScreen \<and> screen (step g e) = GameOverScreen \<longrightarrow>
            (\<exists>g' c. step g e = (endGame g' True)\<lparr>currentAnswer := c\<rparr>)
          \<and> ((e = Tick \<and> mode (settings g) = ''time'' \<and> timeLeft g - 1 \<le> 0)
             \<or> ((\<exists>key. e = KeypadClick key \<or> e = Keydown key) \<and> mode (settings g) = ''score''
                 \<and> scoreRight (step g e) = scoreRight g + 1
                 \<and> scoreRight (step g e) \<ge> limit (settings g)))
          \<and> (gameOverTitle (step g e) = ''You Win!'')
              = (scoreWrong (step g e) \<le> scoreRight (step g e))
          \<and> (gameOverTitle (step g e) = ''You Lost!'')
              = (scoreWrong (step g e) > scoreRight (step g e))
          \<and> winCelebration (step g e) = (scoreWrong (step g e) \<le> scoreRight (step g e))"
  proof (intro impI)
    assume h: "screen g \<noteq> GameOverScreen \<and> screen (step g e) = GameOverScreen"
    then have h1: "screen g \<noteq> GameOverScreen" and h2: "screen (step g e) = GameOverScreen"
      by simp_all
    note trig = step_to_game_over [OF h1 h2]
    from trig obtain g' c where "step g e = (endGame g' True)\<lparr>currentAnswer := c\<rparr>" by blast
    from ended_resolution [OF this] trig tm
    show "(\<exists>g' c. step g e = (endGame g' True)\<lparr>currentAnswer := c\<rparr>)
          \<and> ((e = Tick \<and> mode (settings g) = ''time'' \<and> timeLeft g - 1 \<le> 0)
             \<or> ((\<exists>key. e = KeypadClick key \<or> e = Keydown key) \<and> mode (settings g) = ''score''
                 \<and> scoreRight (step g e) = scoreRight g + 1
                 \<and> scoreRight (step g e) \<ge> limit (settings g)))
          \<and> (gameOverTitle (step g e) = ''You Win!'')
              = (scoreWrong (step g e) \<le> scoreRight (step g e))
          \<and> (gameOverTitle (step g e) = ''You Lost!'')
              = (scoreWrong (step g e) > scoreRight (step g e))
          \<and> winCelebration (step g e) = (scoreWrong (step g e) \<le> scoreRight (step g e))"
      by blast
  qed
  from tick cont score trans show ?thesis by blast
qed

lemma exampleLosingSession_state:
  "screen exampleLosingSession = GameScreen"
  "screen (checkAnswer exampleLosingSession) = GameOverScreen"
  "scoreRight (checkAnswer exampleLosingSession) = 1"
  "scoreWrong (checkAnswer exampleLosingSession) = 2"
  by (simp_all add: eval_defs)

lemma exampleTimedSession_state:
  "timerId exampleTimedSession"
  "timeLeft exampleTimedSession = 1"
  "screen exampleTimedSession = GameScreen"
  "scoreRight exampleTimedSession = 0"
  "scoreWrong exampleTimedSession = 0"
  "timerId exampleTimedLosingSession"
  "timeLeft exampleTimedLosingSession = 1"
  "screen exampleTimedLosingSession = GameScreen"
  "scoreRight exampleTimedLosingSession = 0"
  "scoreWrong exampleTimedLosingSession = 1"
  by (simp_all add: eval_defs)

text \<open>
  The countdown of the one-second session reaching zero, without and with a wrong
  answer before it, and the two sessions in score mode: a win with no wrong answer and a
  loss after two wrong answers.
\<close>

theorem game_over_resolution_witness:
  "timerId exampleTimedSession
   \<and> timeLeft exampleTimedSession \<le> 1
   \<and> mode (settings exampleTimedSession) = ''time''
   \<and> step exampleTimedSession Tick
       = endGame (exampleTimedSession\<lparr>timeLeft := timeLeft exampleTimedSession - 1\<rparr>) True
   \<and> screen exampleTimedSession \<noteq> GameOverScreen
   \<and> screen (step exampleTimedSession Tick) = GameOverScreen
   \<and> gameOverTitle (step exampleTimedSession Tick) = ''You Win!''
   \<and> winCelebration (step exampleTimedSession Tick)
   \<and> timerId exampleTimedLosingSession
   \<and> timeLeft exampleTimedLosingSession \<le> 1
   \<and> scoreWrong (step exampleTimedLosingSession Tick) = 1
   \<and> scoreRight (step exampleTimedLosingSession Tick) = 0
   \<and> screen (step exampleTimedLosingSession Tick) = GameOverScreen
   \<and> gameOverTitle (step exampleTimedLosingSession Tick) = ''You Lost!''
   \<and> \<not> winCelebration (step exampleTimedLosingSession Tick)
   \<and> screen exampleScoreSession \<noteq> GameOverScreen
   \<and> screen (step exampleScoreSession (KeypadClick ''submit'')) = GameOverScreen
   \<and> scoreWrong (step exampleScoreSession (KeypadClick ''submit'')) = 0
   \<and> scoreRight (step exampleScoreSession (KeypadClick ''submit'')) = 1
   \<and> gameOverTitle (step exampleScoreSession (KeypadClick ''submit'')) = ''You Win!''
   \<and> screen exampleLosingSession \<noteq> GameOverScreen
   \<and> screen (step exampleLosingSession (KeypadClick ''submit'')) = GameOverScreen
   \<and> scoreWrong (step exampleLosingSession (KeypadClick ''submit'')) = 2
   \<and> scoreRight (step exampleLosingSession (KeypadClick ''submit'')) = 1
   \<and> gameOverTitle (step exampleLosingSession (KeypadClick ''submit'')) = ''You Lost!''"
proof -
  let ?e = "KeypadClick ''submit''"
  let ?t = exampleTimedSession
  let ?u = exampleTimedLosingSession
  \<comment> \<open>the countdown, no wrong answer\<close>
  have t1: "timerId ?t" and t2: "timeLeft ?t \<le> 1" and t3: "screen ?t \<noteq> GameOverScreen"
    and t4: "scoreRight ?t = 0" and t5: "scoreWrong ?t = 0"
    by (simp_all add: exampleTimedSession_state)
  note T = game_over_resolution [OF exampleTimedSession_def, of "15" Tick]
  from T t1 t2
  have tk: "mode (settings ?t) = ''time''
          \<and> step ?t Tick = endGame (?t\<lparr>timeLeft := timeLeft ?t - 1\<rparr>) True
          \<and> screen (step ?t Tick) = GameOverScreen
          \<and> scoreRight (step ?t Tick) = scoreRight ?t
          \<and> scoreWrong (step ?t Tick) = scoreWrong ?t"
    by blast
  from tk have tkr: "scoreRight (step ?t Tick) = scoreRight ?t"
    and tkw: "scoreWrong (step ?t Tick) = scoreWrong ?t"
    by blast+
  from tkr tkw t4 t5 have tsc: "scoreWrong (step ?t Tick) \<le> scoreRight (step ?t Tick)"
    by linarith
  from T t3 tk
  have "(gameOverTitle (step ?t Tick) = ''You Win!'')
          = (scoreWrong (step ?t Tick) \<le> scoreRight (step ?t Tick))
        \<and> winCelebration (step ?t Tick) = (scoreWrong (step ?t Tick) \<le> scoreRight (step ?t Tick))"
    by blast
  with tsc have tw: "gameOverTitle (step ?t Tick) = ''You Win!'' \<and> winCelebration (step ?t Tick)"
    by blast
  \<comment> \<open>the countdown, one wrong answer\<close>
  have u1: "timerId ?u" and u2: "timeLeft ?u \<le> 1" and u3: "screen ?u \<noteq> GameOverScreen"
    and u4: "scoreRight ?u = 0" and u5: "scoreWrong ?u = 1"
    by (simp_all add: exampleTimedSession_state)
  note U = game_over_resolution [OF exampleTimedLosingSession_def, of "15" Tick]
  from U u1 u2
  have uk: "screen (step ?u Tick) = GameOverScreen
          \<and> scoreRight (step ?u Tick) = scoreRight ?u
          \<and> scoreWrong (step ?u Tick) = scoreWrong ?u"
    by blast
  from U u3 uk
  have "(gameOverTitle (step ?u Tick) = ''You Lost!'')
          = (scoreWrong (step ?u Tick) > scoreRight (step ?u Tick))
        \<and> winCelebration (step ?u Tick) = (scoreWrong (step ?u Tick) \<le> scoreRight (step ?u Tick))"
    by blast
  moreover from uk have ukr: "scoreRight (step ?u Tick) = scoreRight ?u"
    and ukw: "scoreWrong (step ?u Tick) = scoreWrong ?u"
    by blast+
  moreover from ukr ukw u4 u5
  have usc: "scoreWrong (step ?u Tick) = 1 \<and> scoreRight (step ?u Tick) = 0"
    by linarith
  moreover from usc
  have "scoreWrong (step ?u Tick) > scoreRight (step ?u Tick)
        \<and> \<not> scoreWrong (step ?u Tick) \<le> scoreRight (step ?u Tick)"
    by linarith
  ultimately
  have ul: "scoreWrong (step ?u Tick) = 1 \<and> scoreRight (step ?u Tick) = 0
          \<and> gameOverTitle (step ?u Tick) = ''You Lost!'' \<and> \<not> winCelebration (step ?u Tick)"
    by blast
  \<comment> \<open>score mode\<close>
  have a1: "screen exampleScoreSession \<noteq> GameOverScreen"
    by (simp add: exampleScoreSession_state)
  have a0: "mode (settings exampleScoreSession) = ''score'' \<and> currentAnswer exampleScoreSession \<noteq> []
            \<and> parseInt (currentAnswer exampleScoreSession) = Some 15
            \<and> limit (settings exampleScoreSession) \<le> scoreRight exampleScoreSession + 1"
    by (simp add: exampleScoreSession_state parseInt_15)
  have a0': "\<exists>iv\<in>set (invaders exampleScoreSession).
                    inv_value iv * multiplier exampleScoreSession = 15"
    by (simp add: eval_defs)
  note S = game_over_resolution [OF exampleScoreSession_def, of "15" ?e]
  from S a0 a0' have a2: "screen (step exampleScoreSession ?e) = GameOverScreen"
    by blast
  have a3: "scoreWrong (step exampleScoreSession ?e) = 0"
    and a4: "scoreRight (step exampleScoreSession ?e) = 1"
    by (simp_all add: keypadClick_def handleKeypadInput_submit exampleScoreSession_submit)
  have b1: "screen exampleLosingSession \<noteq> GameOverScreen"
    by (simp add: exampleLosingSession_state)
  have b2: "screen (step exampleLosingSession ?e) = GameOverScreen"
    and b3: "scoreWrong (step exampleLosingSession ?e) = 2"
    and b4: "scoreRight (step exampleLosingSession ?e) = 1"
    by (simp_all add: keypadClick_def handleKeypadInput_submit exampleLosingSession_state)
  from S a1 a2 a3 a4
  have w: "gameOverTitle (step exampleScoreSession ?e) = ''You Win!''" by simp
  from game_over_resolution [OF exampleLosingSession_def, of "15" ?e] b1 b2 b3 b4
  have l: "gameOverTitle (step exampleLosingSession ?e) = ''You Lost!''" by simp
  from t1 t2 t3 tk tw u1 u2 ul uk a1 a2 a3 a4 w b1 b2 b3 b4 l show ?thesis by blast
qed

section \<open>Spawned values\<close>

lemma floor_draw_range:
  assumes "0 \<le> r" and "r < 1" and "0 < n"
  shows "1 \<le> \<lfloor>r * real_of_int n\<rfloor> + 1 \<and> \<lfloor>r * real_of_int n\<rfloor> + 1 \<le> n"
proof -
  have "0 \<le> r * real_of_int n" using assms by simp
  then have lo: "0 \<le> \<lfloor>r * real_of_int n\<rfloor>" by simp
  have "r * real_of_int n < real_of_int n" using assms by simp
  then have "\<lfloor>r * real_of_int n\<rfloor> < n" by (simp add: floor_less_iff)
  with lo show ?thesis by simp
qed

text \<open>
  C6, as stated, fails: the spawn does not look at the active list. In the example
  session one invader of value 3 is active; the frame whose random number is 3/10 spawns
  a second invader of value 3, although other random numbers (0, for one) give a value
  that is not in the list.
\<close>

theorem spawn_duplicate_counterexample:
  "map inv_value (invaders (run (newGame exampleArea) [exampleStart])) = [3]
   \<and> map inv_value (invaders (run (newGame exampleArea)
        [exampleStart, Frame 7516 (exampleEnv 7516 3500 (3 / 10))])) = [3, 3]
   \<and> map inv_value (invaders (run (newGame exampleArea)
        [exampleStart, Frame 7516 (exampleEnv 7516 3500 0)])) = [3, 1]"
  by (simp add: eval_defs)

text \<open>
  C6, amended: the spawn appends one invader to the active list and leaves the others
  as they are. The value of the new invader is made from the random number and the
  difficulty alone, between 1 and 9 for single difficulty and between 10 and 99
  otherwise, whatever the list holds; when that value is already in the list, the list
  has two invaders of one value afterwards.
\<close>

theorem spawnInvader_value:
  "invaders (spawnInvader g rv rx rs) =
     invaders g @ [Invader (if difficulty (settings g) = ''single'' then \<lfloor>rv * 9\<rfloor> + 1
                            else \<lfloor>rv * 90\<rfloor> + 10) (gameArea g) (speed (settings g)) rx rs]
   \<and> (0 \<le> rv \<and> rv < 1 \<longrightarrow>
        (if difficulty (settings g) = ''single''
         then 1 \<le> inv_value (last (invaders (spawnInvader g rv rx rs)))
              \<and> inv_value (last (invaders (spawnInvader g rv rx rs))) \<le> 9
         else 10 \<le> inv_value (last (invaders (spawnInvader g rv rx rs)))
              \<and> inv_value (last (invaders (spawnInvader g rv rx rs))) \<le> 99))
   \<and> (inv_value (last (invaders (spawnInvader g rv rx rs))) \<in> inv_value ` set (invaders g) \<longrightarrow>
        \<not> distinct (map inv_value (invaders (spawnInvader g rv rx rs))))"
proof -
  have v: "inv_value (last (invaders (spawnInvader g rv rx rs))) =
      (if difficulty (settings g) = ''single'' then \<lfloor>rv * 9\<rfloor> + 1 else \<lfloor>rv * 90\<rfloor> + 10)"
    by (simp add: spawnInvader_def Let_def Invader_def)
  have r9: "0 \<le> rv \<and> rv < 1 \<Longrightarrow> 1 \<le> \<lfloor>rv * 9\<rfloor> + 1 \<and> \<lfloor>rv * 9\<rfloor> + 1 \<le> 9"
    using floor_draw_range [of rv 9] by simp
  have r90: "0 \<le> rv \<and> rv < 1 \<Longrightarrow> 10 \<le> \<lfloor>rv * 90\<rfloor> + 10 \<and> \<lfloor>rv * 90\<rfloor> + 10 \<le> 99"
    using floor_draw_range [of rv 90] by simp
  have app: "invaders (spawnInvader g rv rx rs) =
     invaders g @ [Invader (if difficulty (settings g) = ''single'' then \<lfloor>rv * 9\<rfloor> + 1
                            else \<lfloor>rv * 90\<rfloor> + 10) (gameArea g) (speed (settings g)) rx rs]"
    by (simp add: spawnInvader_def Let_def)
  have dup: "inv_value (last (invaders (spawnInvader g rv rx rs))) \<in> inv_value ` set (invaders g) \<Longrightarrow>
        \<not> distinct (map inv_value (invaders (spawnInvader g rv rx rs)))"
    by (simp add: app)
  from app v r9 r90 dup show ?thesis by auto
qed

theorem spawnInvader_value_witness:
  "(0 :: real) \<le> 7 / 20 \<and> (7 / 20 :: real) < 1
   \<and> map inv_value (invaders exampleScoreSession) = [3, 4]
   \<and> inv_value (last (invaders (spawnInvader exampleScoreSession (7 / 20) (1 / 2) (1 / 2)))) = 4
   \<and> 1 \<le> inv_value (last (invaders (spawnInvader exampleScoreSession (7 / 20) (1 / 2) (1 / 2))))
   \<and> inv_value (last (invaders (spawnInvader exampleScoreSession (7 / 20) (1 / 2) (1 / 2)))) \<le> 9
   \<and> \<not> distinct (map inv_value (invaders (spawnInvader exampleScoreSession (7 / 20) (1 / 2) (1 / 2))))"
proof -
  let ?g = "exampleScoreSession"
  have h: "(0 :: real) \<le> 7 / 20 \<and> (7 / 20 :: real) < 1" by simp
  have d: "difficulty (settings ?g) = ''single''" by (simp add: eval_defs)
  have vs: "map inv_value (invaders ?g) = [3, 4]" by (simp add: exampleScoreSession_state)
  have v: "inv_value (last (invaders (spawnInvader ?g (7 / 20) (1 / 2) (1 / 2)))) = 4"
    using d by (simp add: spawnInvader_def Let_def Invader_def)
  have "inv_value ` set (invaders ?g) = set (map inv_value (invaders ?g))" by simp
  then have m: "inv_value (last (invaders (spawnInvader ?g (7 / 20) (1 / 2) (1 / 2))))
              \<in> inv_value ` set (invaders ?g)"
    using v vs by simp
  note T = spawnInvader_value [of ?g "7 / 20" "1 / 2" "1 / 2"]
  from T h
  have "if difficulty (settings ?g) = ''single''
        then 1 \<le> inv_value (last (invaders (spawnInvader ?g (7 / 20) (1 / 2) (1 / 2))))
             \<and> inv_value (last (invaders (spawnInvader ?g (7 / 20) (1 / 2) (1 / 2)))) \<le> 9
        else 10 \<le> inv_value (last (invaders (spawnInvader ?g (7 / 20) (1 / 2) (1 / 2))))
             \<and> inv_value (last (invaders (spawnInvader ?g (7 / 20) (1 / 2) (1 / 2)))) \<le> 99"
    by blast
  then have rng: "1 \<le> inv_value (last (invaders (spawnInvader ?g (7 / 20) (1 / 2) (1 / 2))))
      \<and> inv_value (last (invaders (spawnInvader ?g (7 / 20) (1 / 2) (1 / 2)))) \<le> 9"
    by (simp only: d if_True)
  from T m
  have "\<not> distinct (map inv_value (invaders (spawnInvader ?g (7 / 20) (1 / 2) (1 / 2))))"
    by blast
  with h vs v rng show ?thesis by blast
qed

section \<open>The multiplier of a session\<close>

lemma step_keeps_multiplier:
  "\<not> isStart e \<Longrightarrow> multiplier (step g e) = multiplier g \<and> settings (step g e) = settings g"
  by (cases e)
     (simp_all add: showSettings_fields gameLoop_fields timerTick_fields alertTimeout_fields
        keypadClick_fields keydown_fields)

lemma run_keeps_multiplier:
  "\<forall>e\<in>set evs. \<not> isStart e \<Longrightarrow>
   multiplier (run g evs) = multiplier g \<and> settings (run g evs) = settings g"
proof (induction evs arbitrary: g)
  case Nil
  then show ?case by (simp add: run_def)
next
  case (Cons e evs)
  then show ?case using step_keeps_multiplier [of e g] by (simp add: run_Cons)
qed

text \<open>
  C7, as stated, fails in its first half: no multiplier is drawn during a session. In
  the example session in random mode the start draws the multiplier 5; the player
  answers the first invader (3, answer 15), a frame spawns the next (1), the player
  answers it (5), and the multiplier is 5 throughout, with two correct answers counted.
\<close>

theorem multiplier_not_redrawn_counterexample:
  "multiplierMode (settings (run (newGame exampleArea) [exampleStart])) = ''random''
   \<and> multiplier (run (newGame exampleArea) [exampleStart]) = 5
   \<and> scoreRight (run (newGame exampleArea)
        [exampleStart, KeypadClick ''1'', KeypadClick ''5'', KeypadClick ''submit'']) = 1
   \<and> multiplier (run (newGame exampleArea)
        [exampleStart, KeypadClick ''1'', KeypadClick ''5'', KeypadClick ''submit'']) = 5
   \<and> map inv_value (invaders (run (newGame exampleArea)
        [exampleStart, KeypadClick ''1'', KeypadClick ''5'', KeypadClick ''submit'',
         Frame 7516 (exampleEnv 7516 3500 0)])) = [1]
   \<and> multiplier (run (newGame exampleArea)
        [exampleStart, KeypadClick ''1'', KeypadClick ''5'', KeypadClick ''submit'',
         Frame 7516 (exampleEnv 7516 3500 0)]) = 5
   \<and> scoreRight (run (newGame exampleArea)
        [exampleStart, KeypadClick ''1'', KeypadClick ''5'', KeypadClick ''submit'',
         Frame 7516 (exampleEnv 7516 3500 0), KeypadClick ''5'', KeypadClick ''submit'']) = 2
   \<and> multiplier (run (newGame exampleArea)
        [exampleStart, KeypadClick ''1'', KeypadClick ''5'', KeypadClick ''submit'',
         Frame 7516 (exampleEnv 7516 3500 0), KeypadClick ''5'', KeypadClick ''submit'']) = 5"
  by (simp add: eval_defs)

text \<open>
  C7, amended: the multiplier is set once, when the session starts, and no later event
  of the session changes it or the settings. In fixed mode it is the clamped fixed
  value of the settings, between 1 and 12. In any other mode it is made from the one
  random number drawn at the start: between 1 and 9 for single difficulty and between 1
  and 12 otherwise.
\<close>

theorem multiplier_session:
  assumes "\<forall>e\<in>set evs. \<not> isStart e"
  shows "multiplier (run (start f rm dateNow env g) evs) =
           (if multiplierMode (settings (getSettings f g)) = ''fixed''
            then fixedMultiplier (settings (getSettings f g))
            else if difficulty (settings (getSettings f g)) = ''single'' then \<lfloor>rm * 9\<rfloor> + 1
            else \<lfloor>rm * 12\<rfloor> + 1)
       \<and> settings (run (start f rm dateNow env g) evs) = settings (getSettings f g)
       \<and> 1 \<le> fixedMultiplier (settings (getSettings f g))
       \<and> fixedMultiplier (settings (getSettings f g)) \<le> 12
       \<and> (0 \<le> rm \<and> rm < 1 \<longrightarrow>
            1 \<le> multiplier (run (start f rm dateNow env g) evs)
          \<and> multiplier (run (start f rm dateNow env g) evs) \<le> 12
          \<and> (multiplierMode (settings (getSettings f g)) \<noteq> ''fixed''
              \<and> difficulty (settings (getSettings f g)) = ''single'' \<longrightarrow>
                multiplier (run (start f rm dateNow env g) evs) \<le> 9))"
proof -
  have m: "multiplier (run (start f rm dateNow env g) evs) =
           (if multiplierMode (settings (getSettings f g)) = ''fixed''
            then fixedMultiplier (settings (getSettings f g))
            else if difficulty (settings (getSettings f g)) = ''single'' then \<lfloor>rm * 9\<rfloor> + 1
            else \<lfloor>rm * 12\<rfloor> + 1)"
    using run_keeps_multiplier [OF assms, of "start f rm dateNow env g"]
    by (simp add: start_def gameLoop_fields startSetup_multiplier)
  have st: "settings (run (start f rm dateNow env g) evs) = settings (getSettings f g)"
    using run_keeps_multiplier [OF assms, of "start f rm dateNow env g"]
    by (simp add: start_def gameLoop_fields startSetup_fields)
  note fx = getSettings_fixedMultiplier_range [of f g]
  have r9: "0 \<le> rm \<and> rm < 1 \<Longrightarrow> 1 \<le> \<lfloor>rm * 9\<rfloor> + 1 \<and> \<lfloor>rm * 9\<rfloor> + 1 \<le> 9"
    using floor_draw_range [of rm 9] by simp
  have r12: "0 \<le> rm \<and> rm < 1 \<Longrightarrow> 1 \<le> \<lfloor>rm * 12\<rfloor> + 1 \<and> \<lfloor>rm * 12\<rfloor> + 1 \<le> 12"
    using floor_draw_range [of rm 12] by simp
  have rg: "0 \<le> rm \<and> rm < 1 \<longrightarrow>
            1 \<le> multiplier (run (start f rm dateNow env g) evs)
          \<and> multiplier (run (start f rm dateNow env g) evs) \<le> 12
          \<and> (multiplierMode (settings (getSettings f g)) \<noteq> ''fixed''
              \<and> difficulty (settings (getSettings f g)) = ''single'' \<longrightarrow>
                multiplier (run (start f rm dateNow env g) evs) \<le> 9)"
    using fx r9 r12 by (auto simp add: m)
  from m st fx rg show ?thesis by blast
qed

theorem multiplier_session_witness:
  "(0 :: real) \<le> 1 / 2 \<and> (1 / 2 :: real) < 1
   \<and> multiplier (run (start (exampleForm ''time'' ''random'' ''60'' ''20'' ''7'') (1 / 2) 1000
        (exampleEnv 5000 1000 (1 / 4)) (newGame exampleArea))
        [KeypadClick ''1'', KeypadClick ''5'', KeypadClick ''submit'',
         Frame 7516 (exampleEnv 7516 3500 0), Tick, Restart]) = 5
   \<and> multiplier (run (start (exampleForm ''score'' ''fixed'' ''60'' ''20'' ''15'') (1 / 2) 1000
        (exampleEnv 5000 1000 (1 / 4)) (newGame exampleArea))
        [KeypadClick ''1'', KeypadClick ''5'', KeypadClick ''submit'',
         Frame 7516 (exampleEnv 7516 3500 0), Tick, Restart]) = 12"
proof -
  let ?evs = "[KeypadClick ''1'', KeypadClick ''5'', KeypadClick ''submit'',
         Frame 7516 (exampleEnv 7516 3500 0), Tick, Restart]"
  let ?f = "exampleForm ''time'' ''random'' ''60'' ''20'' ''7''"
  let ?h = "exampleForm ''score'' ''fixed'' ''60'' ''20'' ''15''"
  have ns: "\<forall>e\<in>set ?evs. \<not> isStart e" by simp
  have r: "(0 :: real) \<le> 1 / 2 \<and> (1 / 2 :: real) < 1" by simp
  have f: "multiplierMode (settings (getSettings ?f (newGame exampleArea))) \<noteq> ''fixed''"
    "difficulty (settings (getSettings ?f (newGame exampleArea))) = ''single''"
    by (simp_all add: getSettings_def Let_def exampleForm_def checkedOr_def)
  have h: "multiplierMode (settings (getSettings ?h (newGame exampleArea))) = ''fixed''"
    "fixedMultiplier (settings (getSettings ?h (newGame exampleArea))) = 12"
    by (simp_all add: getSettings_def Let_def exampleForm_def checkedOr_def valueOr_def parseInt_15)
  from multiplier_session [OF ns, of ?f "1 / 2" 1000 "exampleEnv 5000 1000 (1 / 4)" "newGame exampleArea"] f
  have a: "multiplier (run (start ?f (1 / 2) 1000 (exampleEnv 5000 1000 (1 / 4)) (newGame exampleArea)) ?evs) = 5"
    by simp
  from multiplier_session [OF ns, of ?h "1 / 2" 1000 "exampleEnv 5000 1000 (1 / 4)" "newGame exampleArea"] h
  have b: "multiplier (run (start ?h (1 / 2) 1000 (exampleEnv 5000 1000 (1 / 4)) (newGame exampleArea)) ?evs) = 12"
    by simp
  from r a b show ?thesis by blast
qed

end
